theory Spec2Isabelle
  imports Complex_Main "HOL-Library.AList"
begin

section \<open>Data model\<close>

text \<open>
  The program (\<^verbatim>\<open>rumour_collation.py\<close>) keeps its records in pandas data frames and
  threads them through \<^verbatim>\<open>sentiment_analysis\<close>, \<^verbatim>\<open>keyword_analysis\<close> and
  \<^verbatim>\<open>calculate_signal_strength\<close>. A frame is modelled column-wise, as pandas stores it:
  the number of rows (\<^verbatim>\<open>len(df)\<close>) and the columns in their order, each a list of
  cells with one cell per row. Every Python exception the modelled code can raise is a
  value of \<open>py_error\<close>, and a function that may raise returns \<open>py_error + 'a\<close>.

  Python's \<^verbatim>\<open>str\<close> is modelled as \<open>string\<close>; where a function of the model
  agrees with Python on ASCII text only, the theorems say so (\<open>ascii_text\<close>). An integer
  cell is a cell of an int64 column, modelled as an \<open>int\<close> with the wrap-around written
  out where integers are added, and \<^verbatim>\<open>float\<close> is modelled as \<open>real\<close> (exact
  arithmetic: rounding is not modelled).
\<close>

datatype py_error = KeyError string | TypeError | AttributeError | ZeroDivisionError

datatype cell = StrCell string | IntCell int | FloatCell real

record dataframe =
  nrows :: nat
  cols :: "(string \<times> cell list) list"

text \<open>\<^verbatim>\<open>df[name]\<close>: the column, or \<^verbatim>\<open>KeyError\<close> when the frame has no such column.\<close>

definition getitem :: "dataframe \<Rightarrow> string \<Rightarrow> py_error + cell list" where
  "getitem df name =
     (case map_of (cols df) name of None \<Rightarrow> Inl (KeyError name) | Some v \<Rightarrow> Inr v)"

text \<open>
  \<^verbatim>\<open>df[name] = values\<close>: an existing column is replaced where it stands, a new one is
  appended after the others.
\<close>

definition setitem :: "dataframe \<Rightarrow> string \<Rightarrow> cell list \<Rightarrow> dataframe" where
  "setitem df name v = df\<lparr>cols := AList.update name v (cols df)\<rparr>"

text \<open>
  The invariant pandas keeps for every frame: each column has one cell per row.
\<close>

definition frame_ok :: "dataframe \<Rightarrow> bool" where
  "frame_ok df = list_all (\<lambda>(name, v). length v = nrows df) (cols df)"

text \<open>
  \<^verbatim>\<open>series.apply(f)\<close>: \<open>f\<close> on every cell in row order; the first exception raised
  by \<open>f\<close> ends the call.
\<close>

fun apply_cells :: "(cell \<Rightarrow> py_error + cell) \<Rightarrow> cell list \<Rightarrow> py_error + cell list" where
  "apply_cells f [] = Inr []"
| "apply_cells f (x # xs) =
     (case f x of
        Inl e \<Rightarrow> Inl e
      | Inr y \<Rightarrow> (case apply_cells f xs of Inl e \<Rightarrow> Inl e | Inr ys \<Rightarrow> Inr (y # ys)))"

section \<open>Strings\<close>

definition ascii_uppercase :: string where
  "ascii_uppercase = ''ABCDEFGHIJKLMNOPQRSTUVWXYZ''"

definition ascii_lowercase :: string where
  "ascii_lowercase = ''abcdefghijklmnopqrstuvwxyz''"

definition ascii_digits :: string where
  "ascii_digits = ''0123456789''"

text \<open>
  The model of \<^verbatim>\<open>str.lower()\<close> and of the pattern's word characters below is the
  ASCII one. Python folds and classifies letters beyond ASCII as well, so a statement
  that depends on either is made for ASCII text, which \<open>ascii_text\<close> says.
\<close>

definition is_ascii :: "char \<Rightarrow> bool" where
  "is_ascii c = (of_char c < (128 :: nat))"

definition ascii_text :: "string \<Rightarrow> bool" where
  "ascii_text s = list_all is_ascii s"

text \<open>\<^verbatim>\<open>str.lower()\<close> on ASCII text.\<close>

definition lower_char :: "char \<Rightarrow> char" where
  "lower_char c =
     (case map_of (zip ascii_uppercase ascii_lowercase) c of None \<Rightarrow> c | Some l \<Rightarrow> l)"

definition lower :: "string \<Rightarrow> string" where
  "lower s = map lower_char s"

text \<open>\<^verbatim>\<open>needle in haystack\<close> on strings: \<open>needle\<close> occurs as a contiguous substring.\<close>

fun starts_with :: "string \<Rightarrow> string \<Rightarrow> bool" where
  "starts_with s [] = True"
| "starts_with [] (p # ps) = False"
| "starts_with (c # cs) (p # ps) = (c = p \<and> starts_with cs ps)"

fun str_in :: "string \<Rightarrow> string \<Rightarrow> bool" where
  "str_in needle [] = (needle = [])"
| "str_in needle (c # cs) = (starts_with (c # cs) needle \<or> str_in needle cs)"

section \<open>Keyword lexicons\<close>

definition MERGER_KEYWORDS :: "string list" where
  "MERGER_KEYWORDS =
     [''merger'', ''acquisition'', ''buyout'', ''takeover'', ''consolidation'',
      ''join forces'', ''strategic partnership'', ''corporate restructuring'',
      ''company integration'', ''synergy'', ''hostile bid'', ''tender offer'',
      ''acquiring stake'', ''majority shareholder'']"

definition LAYOFF_KEYWORDS :: "string list" where
  "LAYOFF_KEYWORDS =
     [''layoff'', ''downsizing'', ''restructuring'', ''job cuts'', ''redundancies'',
      ''workforce reduction'', ''pink slip'', ''let go'', ''fired'', ''termination'',
      ''cost-cutting measures'', ''headcount reduction'']"

definition REASSIGNMENT_KEYWORDS :: "string list" where
  "REASSIGNMENT_KEYWORDS =
     [''reassignment'', ''reallocation'', ''new role'', ''position change'',
      ''department transfer'', ''job rotation'', ''shifting responsibilities'',
      ''organizational changes'', ''new manager'', ''reporting structure change'']"

definition REDUCED_WORKLOAD_KEYWORDS :: "string list" where
  "REDUCED_WORKLOAD_KEYWORDS =
     [''reduced workload'', ''less work'', ''slow period'', ''downtime'',
      ''bench time'', ''low utilization'', ''project cancellation'', ''on hold'',
      ''delayed start'', ''reduced hours'', ''forced vacation'']"

section \<open>The annotator\<close>

text \<open>
  \<^verbatim>\<open>TextBlob(x).sentiment.polarity\<close> belongs to the TextBlob library, not to this
  program: the polarity function is a parameter \<open>pol\<close> of the model.
\<close>

text \<open>The lambda of \<^verbatim>\<open>sentiment_analysis\<close>; \<^verbatim>\<open>TextBlob\<close> refuses anything but a string.\<close>

definition sentiment_cell :: "(string \<Rightarrow> real) \<Rightarrow> cell \<Rightarrow> py_error + cell" where
  "sentiment_cell pol x = (case x of StrCell s \<Rightarrow> Inr (FloatCell (pol s)) | _ \<Rightarrow> Inl TypeError)"

definition sentiment_analysis ::
  "(string \<Rightarrow> real) \<Rightarrow> dataframe \<Rightarrow> string \<Rightarrow> py_error + dataframe" where
  "sentiment_analysis pol df text_column =
     (case getitem df text_column of
        Inl e \<Rightarrow> Inl e
      | Inr texts \<Rightarrow>
          (case apply_cells (sentiment_cell pol) texts of
             Inl e \<Rightarrow> Inl e
           | Inr v \<Rightarrow> Inr (setitem df ''sentiment'' v)))"

text \<open>\<^verbatim>\<open>1 if keyword.lower() in x.lower() else 0\<close>\<close>

definition keyword_flag :: "string \<Rightarrow> string \<Rightarrow> int" where
  "keyword_flag keyword x = (if str_in (lower keyword) (lower x) then 1 else 0)"

text \<open>The lambda of \<^verbatim>\<open>keyword_analysis\<close>; only a string has \<^verbatim>\<open>.lower()\<close>.\<close>

definition flag_cell :: "string \<Rightarrow> cell \<Rightarrow> py_error + cell" where
  "flag_cell keyword x =
     (case x of StrCell s \<Rightarrow> Inr (IntCell (keyword_flag keyword s)) | _ \<Rightarrow> Inl AttributeError)"

text \<open>\<^verbatim>\<open>f'{column_prefix}_{keyword}'\<close>\<close>

definition column_name :: "string \<Rightarrow> string \<Rightarrow> string" where
  "column_name column_prefix keyword = column_prefix @ ''_'' @ keyword"

text \<open>The \<^verbatim>\<open>for keyword in keywords\<close> loop of \<^verbatim>\<open>keyword_analysis\<close>.\<close>

fun keyword_loop ::
  "dataframe \<Rightarrow> string \<Rightarrow> string list \<Rightarrow> string \<Rightarrow> py_error + dataframe" where
  "keyword_loop df text_column [] column_prefix = Inr df"
| "keyword_loop df text_column (keyword # keywords) column_prefix =
     (case getitem df text_column of
        Inl e \<Rightarrow> Inl e
      | Inr texts \<Rightarrow>
          (case apply_cells (flag_cell keyword) texts of
             Inl e \<Rightarrow> Inl e
           | Inr v \<Rightarrow>
               keyword_loop (setitem df (column_name column_prefix keyword) v)
                 text_column keywords column_prefix))"

text \<open>
  \<^verbatim>\<open>df[[name, ...]]\<close>: the listed columns in the listed order (a name listed twice is
  selected twice), \<^verbatim>\<open>KeyError\<close> for a missing one.
\<close>

fun select_columns :: "dataframe \<Rightarrow> string list \<Rightarrow> py_error + cell list list" where
  "select_columns df [] = Inr []"
| "select_columns df (name # names) =
     (case getitem df name of
        Inl e \<Rightarrow> Inl e
      | Inr v \<Rightarrow> (case select_columns df names of Inl e \<Rightarrow> Inl e | Inr vs \<Rightarrow> Inr (v # vs)))"

text \<open>
  A column of integers is an int64 column in pandas: an \<open>IntCell\<close> stands for a 64-bit
  signed value, \<open>in_int64\<close> is the range of such a value, and arithmetic that leaves the
  range wraps around, which \<open>wrap64\<close> does.
\<close>

definition in_int64 :: "int \<Rightarrow> bool" where
  "in_int64 x = (- 9223372036854775808 \<le> x \<and> x < 9223372036854775808)"

definition wrap64 :: "int \<Rightarrow> int" where
  "wrap64 x = (x + 9223372036854775808) mod 18446744073709551616 - 9223372036854775808"

text \<open>
  Python's \<^verbatim>\<open>+\<close> on two cells: integers stay integers (int64, so the sum wraps
  around), a float makes the sum a float, two strings are concatenated, a string and a
  number cannot be added.
\<close>

fun add_cell :: "cell \<Rightarrow> cell \<Rightarrow> py_error + cell" where
  "add_cell (IntCell a) (IntCell b) = Inr (IntCell (wrap64 (a + b)))"
| "add_cell (IntCell a) (FloatCell b) = Inr (FloatCell (of_int a + b))"
| "add_cell (FloatCell a) (IntCell b) = Inr (FloatCell (a + of_int b))"
| "add_cell (FloatCell a) (FloatCell b) = Inr (FloatCell (a + b))"
| "add_cell (StrCell a) (StrCell b) = Inr (StrCell (a @ b))"
| "add_cell _ _ = Inl TypeError"

text \<open>\<^verbatim>\<open>series + series\<close>, row by row.\<close>

fun add_columns :: "cell list \<Rightarrow> cell list \<Rightarrow> py_error + cell list" where
  "add_columns (a # as) (b # bs) =
     (case add_cell a b of
        Inl e \<Rightarrow> Inl e
      | Inr c \<Rightarrow> (case add_columns as bs of Inl e \<Rightarrow> Inl e | Inr cs \<Rightarrow> Inr (c # cs)))"
| "add_columns _ _ = Inr []"

text \<open>
  \<^verbatim>\<open>.sum(axis=1)\<close> over the selected columns: one total per row. With no column selected
  every row's total is zero (pandas gives the float 0.0 there; the model keeps the number).
\<close>

fun sum_axis1 :: "nat \<Rightarrow> cell list list \<Rightarrow> py_error + cell list" where
  "sum_axis1 n [] = Inr (replicate n (IntCell 0))"
| "sum_axis1 n (v # vs) =
     (case sum_axis1 n vs of Inl e \<Rightarrow> Inl e | Inr acc \<Rightarrow> add_columns v acc)"

definition keyword_analysis ::
  "dataframe \<Rightarrow> string \<Rightarrow> string list \<Rightarrow> string \<Rightarrow> py_error + dataframe" where
  "keyword_analysis df text_column keywords column_prefix =
     (case keyword_loop df text_column keywords column_prefix of
        Inl e \<Rightarrow> Inl e
      | Inr df1 \<Rightarrow>
          (case select_columns df1 (map (column_name column_prefix) keywords) of
             Inl e \<Rightarrow> Inl e
           | Inr vs \<Rightarrow>
               (case sum_axis1 (nrows df1) vs of
                  Inl e \<Rightarrow> Inl e
                | Inr score \<Rightarrow> Inr (setitem df1 (column_name column_prefix ''score'') score))))"

section \<open>The aggregator\<close>

text \<open>The cells of a column that holds integers only.\<close>

fun int_items :: "cell list \<Rightarrow> int list option" where
  "int_items [] = Some []"
| "int_items (IntCell i # xs) =
     (case int_items xs of None \<Rightarrow> None | Some ns \<Rightarrow> Some (i # ns))"
| "int_items (_ # xs) = None"

text \<open>
  The cells of a column as floats: with a float among its cells the column is a float64
  column and its integers are floats too; a string is no number.
\<close>

fun float_items :: "cell list \<Rightarrow> py_error + real list" where
  "float_items [] = Inr []"
| "float_items (IntCell i # xs) =
     (case float_items xs of Inl e \<Rightarrow> Inl e | Inr rs \<Rightarrow> Inr (of_int i # rs))"
| "float_items (FloatCell r # xs) =
     (case float_items xs of Inl e \<Rightarrow> Inl e | Inr rs \<Rightarrow> Inr (r # rs))"
| "float_items (StrCell s # xs) = Inl TypeError"

text \<open>
  \<^verbatim>\<open>series.sum()\<close> of a column as a number. The total of an int64 column is an int64
  value: it wraps around silently when the exact sum leaves the range. A column holding a
  string has no numeric total: pandas raises on mixed cells, and on an all-string column it
  concatenates, after which the division of \<^verbatim>\<open>calculate_signal_strength\<close> raises; both
  are \<^verbatim>\<open>TypeError\<close>.
\<close>

definition sum_cells :: "cell list \<Rightarrow> py_error + real" where
  "sum_cells v =
     (case int_items v of
        Some ns \<Rightarrow> Inr (of_int (wrap64 (sum_list ns)))
      | None \<Rightarrow> (case float_items v of Inl e \<Rightarrow> Inl e | Inr rs \<Rightarrow> Inr (sum_list rs)))"

text \<open>\<^verbatim>\<open>a / b\<close> with a row count as divisor: dividing by zero raises.\<close>

definition truediv :: "real \<Rightarrow> nat \<Rightarrow> py_error + real" where
  "truediv a b = (if b = 0 then Inl ZeroDivisionError else Inr (a / real b))"

text \<open>
  The column is read and summed before the row count is looked at, as in the source.
\<close>

definition calculate_signal_strength :: "dataframe \<Rightarrow> string \<Rightarrow> py_error + real" where
  "calculate_signal_strength df column_prefix =
     (case getitem df (column_name column_prefix ''score'') of
        Inl e \<Rightarrow> Inl e
      | Inr v \<Rightarrow>
          (case sum_cells v of
             Inl e \<Rightarrow> Inl e
           | Inr total_mentions \<Rightarrow>
               (let total_posts = nrows df in
                if total_posts > 0 then
                  (case truediv total_mentions total_posts of
                     Inl e \<Rightarrow> Inl e
                   | Inr q \<Rightarrow> Inr (q * 100))
                else Inr 0)))"

text \<open>
  The signal strength in the words of section 4.3 of the specification, on the texts of a
  record set: each record's category score is the sum of its per-keyword flags, and the
  signal strength is the sum of all records' category scores divided by the record count,
  times 100, and 0 when there is no record. The theorems compare the code with it.
\<close>

definition spec_category_score :: "string list \<Rightarrow> string \<Rightarrow> int" where
  "spec_category_score keywords x = sum_list (map (\<lambda>k. keyword_flag k x) keywords)"

definition spec_signal_strength :: "string list \<Rightarrow> string list \<Rightarrow> real" where
  "spec_signal_strength keywords texts =
     (if texts = [] then 0
      else (of_int (sum_list (map (spec_category_score keywords) texts)) / real (length texts)) * 100)"

section \<open>The entity extractor\<close>

text \<open>
  \<^verbatim>\<open>re.findall(r'\b[A-Z][a-z]+ (?:Inc|Corp|Co|Ltd)\b', text)\<close>. The character
  classes of the pattern, and the word characters that decide \<^verbatim>\<open>\b\<close>, on ASCII text.
\<close>

definition is_upper :: "char \<Rightarrow> bool" where
  "is_upper c = (c \<in> set ascii_uppercase)"

definition is_lower :: "char \<Rightarrow> bool" where
  "is_lower c = (c \<in> set ascii_lowercase)"

definition is_word :: "char \<Rightarrow> bool" where
  "is_word c = (is_upper c \<or> is_lower c \<or> c \<in> set ascii_digits \<or> c = CHR ''_'')"

text \<open>
  \<^verbatim>\<open>\b\<close> between the character before a position (\<open>None\<close> at the start of the text)
  and the character at it (\<open>None\<close> at the end): exactly one of the two is a word character.
\<close>

definition word_boundary :: "char option \<Rightarrow> char option \<Rightarrow> bool" where
  "word_boundary prev nxt =
     ((case prev of None \<Rightarrow> False | Some c \<Rightarrow> is_word c) \<noteq>
      (case nxt of None \<Rightarrow> False | Some c \<Rightarrow> is_word c))"

definition next_char :: "string \<Rightarrow> char option" where
  "next_char s = (case s of [] \<Rightarrow> None | c # _ \<Rightarrow> Some c)"

definition company_suffixes :: "string list" where
  "company_suffixes = [''Inc'', ''Corp'', ''Co'', ''Ltd'']"

text \<open>
  \<^verbatim>\<open>(?:Inc|Corp|Co|Ltd)\b\<close>: the alternatives are tried in the order written, and an
  alternative whose text is there but is not followed by a word boundary is given up for
  the next one.
\<close>

fun match_suffix :: "string list \<Rightarrow> string \<Rightarrow> string option" where
  "match_suffix [] s = None"
| "match_suffix (t # ts) s =
     (if starts_with s t \<and> word_boundary (Some (last t)) (next_char (drop (length t) s))
      then Some t else match_suffix ts s)"

text \<open>
  One attempt of the pattern at the head of \<open>s\<close>, \<open>prev\<close> being the character in
  front of it. \<^verbatim>\<open>[a-z]+\<close> is greedy and takes the whole run of lower-case letters;
  giving letters back cannot help, since the next pattern item is a space and the
  character after a shorter run is a lower-case letter.
\<close>

definition match_here :: "char option \<Rightarrow> string \<Rightarrow> string option" where
  "match_here prev s =
     (case s of
        [] \<Rightarrow> None
      | c # cs \<Rightarrow>
          if word_boundary prev (Some c) \<and> is_upper c then
            (let w = takeWhile is_lower cs; r = dropWhile is_lower cs in
             if w = [] then None
             else (case r of
                     [] \<Rightarrow> None
                   | sp # r' \<Rightarrow>
                       if sp = CHR '' '' then
                         (case match_suffix company_suffixes r' of
                            None \<Rightarrow> None
                          | Some t \<Rightarrow> Some (c # w @ '' '' @ t))
                       else None))
          else None)"

text \<open>
  \<^verbatim>\<open>findall\<close> scans from left to right; after a match it goes on behind the match, so
  matches do not overlap, and otherwise one character further.
\<close>

function findall_from :: "char option \<Rightarrow> string \<Rightarrow> string list" where
  "findall_from prev [] = []"
| "findall_from prev (c # cs) =
     (case match_here prev (c # cs) of
        None \<Rightarrow> findall_from (Some c) cs
      | Some m \<Rightarrow> m # findall_from (Some (last m)) (drop (length m) (c # cs)))"
  by pat_completeness auto
termination
  by (relation "measure (\<lambda>(prev, s). length s)")
     (auto simp: match_here_def Let_def split: list.splits if_splits option.splits)

definition extract_companies :: "string \<Rightarrow> string list" where
  "extract_companies text = findall_from None text"

text \<open>
  \<^verbatim>\<open>Counter(companies)\<close>: a dictionary from entity to count that keeps its keys in
  the order of their first insertion, filled by one pass over the list.
\<close>

fun counter_add :: "'a \<Rightarrow> ('a \<times> nat) list \<Rightarrow> ('a \<times> nat) list" where
  "counter_add x [] = [(x, 1)]"
| "counter_add x ((y, n) # ps) =
     (if x = y then (y, n + 1) # ps else (y, n) # counter_add x ps)"

definition Counter :: "'a list \<Rightarrow> ('a \<times> nat) list" where
  "Counter xs = foldl (\<lambda>c x. counter_add x c) [] xs"

text \<open>
  \<^verbatim>\<open>most_common(n)\<close> is \<^verbatim>\<open>heapq.nlargest(n, items, key=count)\<close>, which the
  Python library defines as \<^verbatim>\<open>sorted(items, key=count, reverse=True)[:n]\<close>: a stable
  sort by descending count, cut after \<open>n\<close> entries.
\<close>

definition most_common :: "nat \<Rightarrow> ('a \<times> nat) list \<Rightarrow> ('a \<times> nat) list" where
  "most_common n c = take n (sort_key (\<lambda>p. - int (snd p)) c)"

text \<open>
  The position at which an entity is first encountered in the list of matches; the order
  of ties in the tally is stated with it.
\<close>

definition first_index :: "'a list \<Rightarrow> 'a \<Rightarrow> nat" where
  "first_index xs x = length (takeWhile (\<lambda>y. y \<noteq> x) xs)"

section \<open>The pipeline\<close>

text \<open>
  \<^verbatim>\<open>analyze_subreddit\<close> reads the forum over the network; the model starts from what it
  collected, the list of post dictionaries and the list of comment dictionaries
  (\<open>ident\<close> is the key \<^verbatim>\<open>id\<close>, \<open>comment_created\<close> the key \<^verbatim>\<open>created\<close> of a
  comment, and a timestamp is a number of seconds).
\<close>

record post =
  title :: string
  score :: int
  ident :: string
  url :: string
  comms_num :: int
  created :: int
  body :: string

record comment =
  post_id :: string
  comment_id :: string
  comment_parent_id :: string
  comment_body :: string
  comment_score :: int
  comment_created :: int

text \<open>
  \<^verbatim>\<open>pd.DataFrame(posts)\<close> on a list of dictionaries: one column per key, one row per
  dictionary. On the empty list there is no key to take a column from, and the frame has
  no column at all.
\<close>

definition DataFrame_posts :: "post list \<Rightarrow> dataframe" where
  "DataFrame_posts posts =
     (if posts = [] then \<lparr>nrows = 0, cols = []\<rparr>
      else \<lparr>nrows = length posts,
            cols = [(''title'', map (\<lambda>p. StrCell (title p)) posts),
                    (''score'', map (\<lambda>p. IntCell (score p)) posts),
                    (''id'', map (\<lambda>p. StrCell (ident p)) posts),
                    (''url'', map (\<lambda>p. StrCell (url p)) posts),
                    (''comms_num'', map (\<lambda>p. IntCell (comms_num p)) posts),
                    (''created'', map (\<lambda>p. IntCell (created p)) posts),
                    (''body'', map (\<lambda>p. StrCell (body p)) posts)]\<rparr>)"

definition DataFrame_comments :: "comment list \<Rightarrow> dataframe" where
  "DataFrame_comments comments =
     (if comments = [] then \<lparr>nrows = 0, cols = []\<rparr>
      else \<lparr>nrows = length comments,
            cols = [(''post_id'', map (\<lambda>c. StrCell (post_id c)) comments),
                    (''comment_id'', map (\<lambda>c. StrCell (comment_id c)) comments),
                    (''comment_parent_id'', map (\<lambda>c. StrCell (comment_parent_id c)) comments),
                    (''comment_body'', map (\<lambda>c. StrCell (comment_body c)) comments),
                    (''comment_score'', map (\<lambda>c. IntCell (comment_score c)) comments),
                    (''created'', map (\<lambda>c. IntCell (comment_created c)) comments)]\<rparr>)"

text \<open>\<^verbatim>\<open>posts_df['full_text'] = posts_df['title'] + ' ' + posts_df['body']\<close>\<close>

definition add_full_text :: "dataframe \<Rightarrow> py_error + dataframe" where
  "add_full_text df =
     (case getitem df ''title'' of
        Inl e \<Rightarrow> Inl e
      | Inr t \<Rightarrow>
          (case apply_cells (\<lambda>x. add_cell x (StrCell '' '')) t of
             Inl e \<Rightarrow> Inl e
           | Inr ts \<Rightarrow>
               (case getitem df ''body'' of
                  Inl e \<Rightarrow> Inl e
                | Inr b \<Rightarrow>
                    (case add_columns ts b of
                       Inl e \<Rightarrow> Inl e
                     | Inr v \<Rightarrow> Inr (setitem df ''full_text'' v)))))"

text \<open>
  The two plotting functions draw and save charts, which is outside the model; what they
  read from the frame, and so the exceptions they can raise, is kept.
\<close>

definition plot_sentiment_over_time :: "dataframe \<Rightarrow> py_error + unit" where
  "plot_sentiment_over_time df =
     (case getitem df ''created'' of
        Inl e \<Rightarrow> Inl e
      | Inr _ \<Rightarrow> (case getitem df ''sentiment'' of Inl e \<Rightarrow> Inl e | Inr _ \<Rightarrow> Inr ()))"

fun plot_keyword_frequency :: "dataframe \<Rightarrow> string list \<Rightarrow> string \<Rightarrow> py_error + unit" where
  "plot_keyword_frequency df [] column_prefix = Inr ()"
| "plot_keyword_frequency df (keyword # keywords) column_prefix =
     (case getitem df (column_name column_prefix keyword) of
        Inl e \<Rightarrow> Inl e
      | Inr v \<Rightarrow>
          (case sum_cells v of
             Inl e \<Rightarrow> Inl e
           | Inr _ \<Rightarrow> plot_keyword_frequency df keywords column_prefix))"

text \<open>\<^verbatim>\<open>sep.join(series)\<close>: every item must be a string.\<close>

fun str_items :: "cell list \<Rightarrow> py_error + string list" where
  "str_items [] = Inr []"
| "str_items (StrCell s # xs) =
     (case str_items xs of Inl e \<Rightarrow> Inl e | Inr ss \<Rightarrow> Inr (s # ss))"
| "str_items (_ # xs) = Inl TypeError"

fun join :: "string \<Rightarrow> string list \<Rightarrow> string" where
  "join sep [] = []"
| "join sep [s] = s"
| "join sep (s # t # ts) = s @ sep @ join sep (t # ts)"

definition join_column :: "dataframe \<Rightarrow> string \<Rightarrow> py_error + string" where
  "join_column df name =
     (case getitem df name of
        Inl e \<Rightarrow> Inl e
      | Inr v \<Rightarrow> (case str_items v of Inl e \<Rightarrow> Inl e | Inr ss \<Rightarrow> Inr (join '' '' ss)))"

text \<open>\<^verbatim>\<open>series.mean()\<close>; \<open>None\<close> is the NaN pandas gives for a column without rows.\<close>

definition mean_column :: "dataframe \<Rightarrow> string \<Rightarrow> py_error + real option" where
  "mean_column df name =
     (case getitem df name of
        Inl e \<Rightarrow> Inl e
      | Inr v \<Rightarrow>
          (case sum_cells v of
             Inl e \<Rightarrow> Inl e
           | Inr t \<Rightarrow> Inr (if v = [] then None else Some (t / real (length v)))))"

text \<open>
  What one run of \<^verbatim>\<open>analyze_company\<close> hands to the outside: the numbers and the
  entity list it formats into \<^verbatim>\<open>report.txt\<close>, and the two annotated frames it writes to
  \<^verbatim>\<open>posts.csv\<close> and \<^verbatim>\<open>comments.csv\<close>. Directory creation, logging, the clock and the
  file writes themselves are outside the model.
\<close>

record report =
  merger_signal :: real
  layoff_signal :: real
  reassign_signal :: real
  reduced_work_signal :: real
  company_counts :: "(string \<times> nat) list"
  posts_sentiment :: "real option"
  comments_sentiment :: "real option"
  posts_csv :: dataframe
  comments_csv :: dataframe

text \<open>Sequencing of statements that may raise: the first exception ends the run.\<close>

definition and_then :: "py_error + 'a \<Rightarrow> ('a \<Rightarrow> py_error + 'b) \<Rightarrow> py_error + 'b" where
  "and_then m f = (case m of Inl e \<Rightarrow> Inl e | Inr x \<Rightarrow> f x)"

text \<open>
  \<^verbatim>\<open>signal = calculate_signal_strength(posts_df, p) + calculate_signal_strength(comments_df, p)\<close>
\<close>

definition combined_signal :: "dataframe \<Rightarrow> dataframe \<Rightarrow> string \<Rightarrow> py_error + real" where
  "combined_signal posts_df comments_df column_prefix =
     and_then (calculate_signal_strength posts_df column_prefix) (\<lambda>a.
     and_then (calculate_signal_strength comments_df column_prefix) (\<lambda>b.
     Inr (a + b)))"

text \<open>
  \<^verbatim>\<open>analyze_company\<close>, statement by statement, on the posts and comments fetched for
  the forum.
\<close>

definition analyze_company ::
  "(string \<Rightarrow> real) \<Rightarrow> post list \<Rightarrow> comment list \<Rightarrow> py_error + report" where
  "analyze_company pol posts comments =
     and_then (add_full_text (DataFrame_posts posts)) (\<lambda>posts_df.
     and_then (sentiment_analysis pol posts_df ''full_text'') (\<lambda>posts_df.
     and_then (sentiment_analysis pol (DataFrame_comments comments) ''comment_body'') (\<lambda>comments_df.
     and_then (keyword_analysis posts_df ''full_text'' MERGER_KEYWORDS ''merger'') (\<lambda>posts_df.
     and_then (keyword_analysis posts_df ''full_text'' LAYOFF_KEYWORDS ''layoff'') (\<lambda>posts_df.
     and_then (keyword_analysis posts_df ''full_text'' REASSIGNMENT_KEYWORDS ''reassign'') (\<lambda>posts_df.
     and_then (keyword_analysis posts_df ''full_text'' REDUCED_WORKLOAD_KEYWORDS ''reduced_work'') (\<lambda>posts_df.
     and_then (keyword_analysis comments_df ''comment_body'' MERGER_KEYWORDS ''merger'') (\<lambda>comments_df.
     and_then (keyword_analysis comments_df ''comment_body'' LAYOFF_KEYWORDS ''layoff'') (\<lambda>comments_df.
     and_then (keyword_analysis comments_df ''comment_body'' REASSIGNMENT_KEYWORDS ''reassign'') (\<lambda>comments_df.
     and_then (keyword_analysis comments_df ''comment_body'' REDUCED_WORKLOAD_KEYWORDS ''reduced_work'') (\<lambda>comments_df.
     and_then (plot_sentiment_over_time posts_df) (\<lambda>_.
     and_then (plot_sentiment_over_time comments_df) (\<lambda>_.
     and_then (plot_keyword_frequency posts_df MERGER_KEYWORDS ''merger'') (\<lambda>_.
     and_then (plot_keyword_frequency comments_df MERGER_KEYWORDS ''merger'') (\<lambda>_.
     and_then (join_column posts_df ''full_text'') (\<lambda>posts_text.
     and_then (join_column comments_df ''comment_body'') (\<lambda>comments_text.
     let all_text = posts_text @ '' '' @ comments_text;
         companies = extract_companies all_text;
         counts = most_common 10 (Counter companies)
     in
     and_then (combined_signal posts_df comments_df ''merger'') (\<lambda>merger.
     and_then (combined_signal posts_df comments_df ''layoff'') (\<lambda>layoff.
     and_then (combined_signal posts_df comments_df ''reassign'') (\<lambda>reassign.
     and_then (combined_signal posts_df comments_df ''reduced_work'') (\<lambda>reduced_work.
     and_then (mean_column posts_df ''sentiment'') (\<lambda>posts_mean.
     and_then (mean_column comments_df ''sentiment'') (\<lambda>comments_mean.
     Inr \<lparr>merger_signal = merger, layoff_signal = layoff,
          reassign_signal = reassign, reduced_work_signal = reduced_work,
          company_counts = counts,
          posts_sentiment = posts_mean, comments_sentiment = comments_mean,
          posts_csv = posts_df, comments_csv = comments_df\<rparr>)))))))))))))))))))))))"

section \<open>Frames: reading and writing columns\<close>

lemma getitem_setitem:
  "getitem (setitem df name v) c = (if c = name then Inr v else getitem df c)"
  by (simp add: getitem_def setitem_def update_conv')

lemma nrows_setitem: "nrows (setitem df name v) = nrows df"
  by (simp add: setitem_def)

lemma names_setitem:
  "map fst (cols (setitem df name v)) =
     (if name \<in> set (map fst (cols df)) then map fst (cols df) else map fst (cols df) @ [name])"
  by (simp add: setitem_def update_keys)

lemma getitem_frame_ok: "frame_ok df \<Longrightarrow> getitem df c = Inr v \<Longrightarrow> length v = nrows df"
  by (auto simp: frame_ok_def getitem_def list_all_iff split: option.splits dest!: map_of_SomeD)

lemma wrap64_id: "in_int64 x \<Longrightarrow> wrap64 x = x"
  by (simp add: wrap64_def in_int64_def)

lemma int_items_IntCell: "int_items (map IntCell xs) = Some xs"
  by (induction xs) auto

lemma sum_cells_IntCell: "sum_cells (map IntCell xs) = Inr (of_int (wrap64 (sum_list xs)))"
  by (simp add: sum_cells_def int_items_IntCell)

lemma signal_never_divides_by_zero:
  "calculate_signal_strength df column_prefix \<noteq> Inl ZeroDivisionError"
proof -
  have a: "getitem df c \<noteq> Inl ZeroDivisionError" for c
    by (simp add: getitem_def split: option.splits)
  have "float_items v \<noteq> Inl ZeroDivisionError" for v
    by (induction v rule: float_items.induct) (auto split: sum.splits)
  then have b: "sum_cells v \<noteq> Inl ZeroDivisionError" for v
    by (auto simp: sum_cells_def split: option.splits sum.splits)
  show ?thesis using a b
    by (auto simp: calculate_signal_strength_def truediv_def Let_def split: sum.splits)
qed

lemma signal_strength_ints:
  "0 < nrows df \<Longrightarrow> getitem df (column_name p ''score'') = Inr (map IntCell scores) \<Longrightarrow>
     in_int64 (sum_list scores) \<Longrightarrow>
     calculate_signal_strength df p = Inr ((of_int (sum_list scores) / real (nrows df)) * 100)"
  by (simp add: calculate_signal_strength_def sum_cells_IntCell truediv_def wrap64_id)

section \<open>Substring test and keyword flags\<close>

lemma starts_with_iff: "starts_with s p \<longleftrightarrow> (\<exists>r. s = p @ r)"
  by (induction s p rule: starts_with.induct) auto

lemma str_in_iff: "str_in needle s \<longleftrightarrow> (\<exists>a b. s = a @ needle @ b)"
proof (induction s)
  case Nil
  then show ?case by auto
next
  case (Cons c cs)
  show ?case
  proof
    assume "str_in needle (c # cs)"
    then consider "starts_with (c # cs) needle" | "str_in needle cs" by auto
    then show "\<exists>a b. c # cs = a @ needle @ b"
    proof cases
      case 1
      then obtain r where "c # cs = needle @ r" by (auto simp: starts_with_iff)
      then have "c # cs = [] @ needle @ r" by simp
      then show ?thesis by blast
    next
      case 2
      then obtain a b where "cs = a @ needle @ b" using Cons.IH by blast
      then have "c # cs = (c # a) @ needle @ b" by simp
      then show ?thesis by blast
    qed
  next
    assume "\<exists>a b. c # cs = a @ needle @ b"
    then obtain a b where ab: "c # cs = a @ needle @ b" by blast
    show "str_in needle (c # cs)"
    proof (cases a)
      case Nil
      with ab have "starts_with (c # cs) needle" by (auto simp: starts_with_iff)
      then show ?thesis by simp
    next
      case (Cons x a')
      with ab have "cs = a' @ needle @ b" by simp
      then have "str_in needle cs" using Cons.IH by blast
      then show ?thesis by simp
    qed
  qed
qed

lemma keyword_flag_01: "keyword_flag k t = 0 \<or> keyword_flag k t = 1"
  by (simp add: keyword_flag_def)

lemma keyword_flag_1_iff:
  "keyword_flag k t = 1 \<longleftrightarrow> (\<exists>a b. lower t = a @ lower k @ b)"
  by (simp add: keyword_flag_def str_in_iff)

lemma apply_cells_length: "apply_cells f xs = Inr ys \<Longrightarrow> length ys = length xs"
  by (induction xs arbitrary: ys) (auto split: sum.splits)

lemma apply_flag_cells:
  "apply_cells (flag_cell k) (map StrCell texts) = Inr (map (\<lambda>t. IntCell (keyword_flag k t)) texts)"
  by (induction texts) (auto simp: flag_cell_def)


lemma column_name_inj: "column_name p k = column_name p k' \<longleftrightarrow> k = k'"
  by (simp add: column_name_def)

lemma keyword_loop_frame:
  "keyword_loop df tc kws p = Inr df1 \<Longrightarrow>
     nrows df1 = nrows df \<and>
     (\<forall>c. c \<notin> column_name p ` set kws \<longrightarrow> getitem df1 c = getitem df c) \<and>
     (\<exists>new. map fst (cols df1) = map fst (cols df) @ new \<and> set new \<subseteq> column_name p ` set kws)"
proof (induction kws arbitrary: df)
  case Nil
  then show ?case by simp
next
  case (Cons k ks)
  from Cons.prems obtain texts v where
    v: "getitem df tc = Inr texts" "apply_cells (flag_cell k) texts = Inr v"
    and rest: "keyword_loop (setitem df (column_name p k) v) tc ks p = Inr df1"
    by (auto split: sum.splits)
  let ?d = "setitem df (column_name p k) v"
  from Cons.IH[OF rest] obtain new where
    n: "nrows df1 = nrows ?d"
    and g: "\<forall>c. c \<notin> column_name p ` set ks \<longrightarrow> getitem df1 c = getitem ?d c"
    and o: "map fst (cols df1) = map fst (cols ?d) @ new" "set new \<subseteq> column_name p ` set ks"
    by blast
  have 1: "nrows df1 = nrows df" using n by (simp add: nrows_setitem)
  have 2: "\<forall>c. c \<notin> column_name p ` set (k # ks) \<longrightarrow> getitem df1 c = getitem df c"
    using g by (auto simp: getitem_setitem)
  have 3: "\<exists>new'. map fst (cols df1) = map fst (cols df) @ new' \<and>
             set new' \<subseteq> column_name p ` set (k # ks)"
    using o by (auto simp: names_setitem split: if_splits)
  from 1 2 3 show ?case by blast
qed

lemma keyword_loop_int_fails:
  "getitem df tc = Inr (IntCell i # rest) \<Longrightarrow> keyword_loop df tc (k # ks) p = Inl AttributeError"
  by (simp add: flag_cell_def)

lemma keyword_loop_flags:
  "keyword_loop df tc kws p = Inr df1 \<Longrightarrow> getitem df tc = Inr (map StrCell texts) \<Longrightarrow>
     k \<in> set kws \<Longrightarrow>
     getitem df1 (column_name p k) = Inr (map (\<lambda>t. IntCell (keyword_flag k t)) texts)"
proof (induction kws arbitrary: df)
  case Nil
  then show ?case by simp
next
  case (Cons k0 ks)
  let ?v = "map (\<lambda>t. IntCell (keyword_flag k0 t)) texts"
  let ?d = "setitem df (column_name p k0) ?v"
  from Cons.prems(1,2) have rest: "keyword_loop ?d tc ks p = Inr df1"
    by (simp add: apply_flag_cells)
  show ?case
  proof (cases "k \<in> set ks")
    case False
    with Cons.prems(3) have k: "k = k0" by simp
    have "column_name p k0 \<notin> column_name p ` set ks"
      using False k by (auto simp: column_name_inj)
    then have "getitem df1 (column_name p k0) = getitem ?d (column_name p k0)"
      using keyword_loop_frame[OF rest] by blast
    then show ?thesis using k by (simp add: getitem_setitem)
  next
    case True
    show ?thesis
    proof (cases "tc = column_name p k0")
      case False
      then have "getitem ?d tc = Inr (map StrCell texts)"
        using Cons.prems(2) by (simp add: getitem_setitem)
      from Cons.IH[OF rest this True] show ?thesis .
    next
      case tc: True
      show ?thesis
      proof (cases texts)
        case Nil
        then have "getitem ?d tc = Inr (map StrCell texts)"
          using tc by (simp add: getitem_setitem)
        from Cons.IH[OF rest this True] show ?thesis .
      next
        case (Cons t ts)
        then have "getitem ?d tc = Inr (IntCell (keyword_flag k0 t) # map (\<lambda>t. IntCell (keyword_flag k0 t)) ts)"
          using tc by (simp add: getitem_setitem)
        moreover obtain k1 ks1 where "ks = k1 # ks1" using True by (cases ks) auto
        ultimately have "keyword_loop ?d tc ks p = Inl AttributeError"
          using keyword_loop_int_fails by blast
        with rest show ?thesis by simp
      qed
    qed
  qed
qed

section \<open>Category scores\<close>

lemma select_columns_known:
  "(\<And>k. k \<in> set kws \<Longrightarrow> getitem df (column_name p k) = Inr (F k)) \<Longrightarrow>
     select_columns df (map (column_name p) kws) = Inr (map F kws)"
  by (induction kws) auto

lemma add_columns_ints:
  "add_columns (map (\<lambda>t. IntCell (a t)) texts) (map (\<lambda>t. IntCell (b t)) texts) =
     Inr (map (\<lambda>t. IntCell (wrap64 (a t + b t))) texts)"
  by (induction texts) auto

text \<open>
  A row total of flags is at most the number of keywords, so it stays in the int64 range
  for a keyword list of fewer than \<open>2 ^ 63\<close> entries.
\<close>

lemma sum_flags_bounds:
  assumes "\<And>k t. f k t = 0 \<or> f k t = (1 :: int)"
  shows "0 \<le> sum_list (map (\<lambda>k. f k t) kws) \<and> sum_list (map (\<lambda>k. f k t) kws) \<le> int (length kws)"
proof (induction kws)
  case Nil
  show ?case by simp
next
  case (Cons k ks)
  from assms[of k t] Cons show ?case by auto
qed

lemma sum_axis1_ints:
  assumes f: "\<And>k t. f k t = 0 \<or> f k t = (1 :: int)"
    and bd: "length kws < 2 ^ 63"
  shows "sum_axis1 (length texts) (map (\<lambda>k. map (\<lambda>t. IntCell (f k t)) texts) kws) =
     Inr (map (\<lambda>t. IntCell (sum_list (map (\<lambda>k. f k t) kws))) texts)"
  using bd
proof (induction kws)
  case Nil
  show ?case by (simp add: map_replicate_const)
next
  case (Cons k ks)
  have "int (length (k # ks)) < int (2 ^ 63)"
    using Cons.prems by (simp only: of_nat_less_iff)
  then have len: "int (length ks) + 1 < 9223372036854775808" by simp
  have "length ks < 2 ^ 63" using Cons.prems by simp
  then have IH: "sum_axis1 (length texts) (map (\<lambda>k. map (\<lambda>t. IntCell (f k t)) texts) ks) =
     Inr (map (\<lambda>t. IntCell (sum_list (map (\<lambda>k. f k t) ks))) texts)"
    by (rule Cons.IH)
  have "wrap64 (f k t + sum_list (map (\<lambda>k. f k t) ks)) = f k t + sum_list (map (\<lambda>k. f k t) ks)" for t
  proof (rule wrap64_id)
    from f[of k t] sum_flags_bounds[of f t ks, OF f] len
    show "in_int64 (f k t + sum_list (map (\<lambda>k. f k t) ks))"
      by (auto simp: in_int64_def)
  qed
  then show ?case by (simp add: IH add_columns_ints)
qed

lemma sum_flags_count:
  "sum_list (map (\<lambda>k. keyword_flag k t) kws) = int (length (filter (\<lambda>k. keyword_flag k t = 1) kws))"
  by (induction kws) (auto simp: keyword_flag_def)

lemma keyword_analysis_result:
  assumes ok: "keyword_analysis df tc kws p = Inr df'"
    and fr: "frame_ok df"
    and tx: "getitem df tc = Inr (map StrCell texts)"
    and bd: "length kws < 2 ^ 63"
  shows "getitem df' (column_name p ''score'') =
           Inr (map (\<lambda>t. IntCell (int (length (filter (\<lambda>k. keyword_flag k t = 1) kws)))) texts)"
    and "k \<in> set kws \<Longrightarrow> k \<noteq> ''score'' \<Longrightarrow>
           getitem df' (column_name p k) = Inr (map (\<lambda>t. IntCell (keyword_flag k t)) texts)"
proof -
  from ok obtain df1 vs sc where
    l: "keyword_loop df tc kws p = Inr df1"
    and s: "select_columns df1 (map (column_name p) kws) = Inr vs"
    and a: "sum_axis1 (nrows df1) vs = Inr sc"
    and d: "df' = setitem df1 (column_name p ''score'') sc"
    by (auto simp: keyword_analysis_def split: sum.splits)
  have fl: "getitem df1 (column_name p k) = Inr (map (\<lambda>t. IntCell (keyword_flag k t)) texts)"
    if "k \<in> set kws" for k
    using keyword_loop_flags[OF l tx that] .
  have n: "nrows df1 = length texts"
    using keyword_loop_frame[OF l] getitem_frame_ok[OF fr tx] by simp
  have "vs = map (\<lambda>k. map (\<lambda>t. IntCell (keyword_flag k t)) texts) kws"
    using select_columns_known[of kws df1 p "\<lambda>k. map (\<lambda>t. IntCell (keyword_flag k t)) texts"] fl s
    by simp
  with a n have "sc = map (\<lambda>t. IntCell (sum_list (map (\<lambda>k. keyword_flag k t) kws))) texts"
    by (simp add: sum_axis1_ints[of keyword_flag, OF keyword_flag_01 bd])
  then show "getitem df' (column_name p ''score'') =
           Inr (map (\<lambda>t. IntCell (int (length (filter (\<lambda>k. keyword_flag k t = 1) kws)))) texts)"
    using d by (simp add: getitem_setitem sum_flags_count)
  show "getitem df' (column_name p k) = Inr (map (\<lambda>t. IntCell (keyword_flag k t)) texts)"
    if "k \<in> set kws" "k \<noteq> ''score''"
    using that fl d by (simp add: getitem_setitem column_name_inj)
qed

lemma keyword_loop_total:
  "getitem df tc = Inr (map StrCell texts) \<Longrightarrow> tc \<notin> column_name p ` set kws \<Longrightarrow>
     \<exists>df1. keyword_loop df tc kws p = Inr df1"
proof (induction kws arbitrary: df)
  case Nil
  then show ?case by simp
next
  case (Cons k ks)
  let ?d = "setitem df (column_name p k) (map (\<lambda>t. IntCell (keyword_flag k t)) texts)"
  have "getitem ?d tc = Inr (map StrCell texts)"
    using Cons.prems by (auto simp: getitem_setitem)
  moreover have "tc \<notin> column_name p ` set ks" using Cons.prems by auto
  ultimately obtain df1 where "keyword_loop ?d tc ks p = Inr df1"
    using Cons.IH by blast
  then show ?case using Cons.prems(1) by (simp add: apply_flag_cells)
qed

lemma keyword_analysis_total:
  assumes fr: "frame_ok df"
    and tx: "getitem df tc = Inr (map StrCell texts)"
    and nc: "tc \<notin> column_name p ` set kws"
    and bd: "length kws < 2 ^ 63"
  shows "\<exists>df'. keyword_analysis df tc kws p = Inr df'"
proof -
  from keyword_loop_total[OF tx nc] obtain df1 where l: "keyword_loop df tc kws p = Inr df1"
    by blast
  have fl: "getitem df1 (column_name p k) = Inr (map (\<lambda>t. IntCell (keyword_flag k t)) texts)"
    if "k \<in> set kws" for k
    using keyword_loop_flags[OF l tx that] .
  have n: "nrows df1 = length texts"
    using keyword_loop_frame[OF l] getitem_frame_ok[OF fr tx] by simp
  have s: "select_columns df1 (map (column_name p) kws) =
      Inr (map (\<lambda>k. map (\<lambda>t. IntCell (keyword_flag k t)) texts) kws)"
    using select_columns_known[of kws df1 p "\<lambda>k. map (\<lambda>t. IntCell (keyword_flag k t)) texts"] fl
    by simp
  show ?thesis
    by (simp add: keyword_analysis_def l s n sum_axis1_ints[of keyword_flag, OF keyword_flag_01 bd])
qed

lemma keyword_analysis_frame:
  assumes ok: "keyword_analysis df tc kws p = Inr df'"
  shows "nrows df' = nrows df"
    and "c \<notin> column_name p ` (set kws \<union> {''score''}) \<Longrightarrow> getitem df' c = getitem df c"
    and "\<exists>new. map fst (cols df') = map fst (cols df) @ new \<and>
           set new \<subseteq> column_name p ` (set kws \<union> {''score''})"
proof -
  from ok obtain df1 sc where
    l: "keyword_loop df tc kws p = Inr df1"
    and d: "df' = setitem df1 (column_name p ''score'') sc"
    by (auto simp: keyword_analysis_def split: sum.splits)
  note f = keyword_loop_frame[OF l]
  show "nrows df' = nrows df" using f d by (simp add: nrows_setitem)
  show "getitem df' c = getitem df c" if "c \<notin> column_name p ` (set kws \<union> {''score''})"
    using that f d by (auto simp: getitem_setitem)
  from f obtain new where
    "map fst (cols df1) = map fst (cols df) @ new" "set new \<subseteq> column_name p ` set kws"
    by blast
  then show "\<exists>new. map fst (cols df') = map fst (cols df) @ new \<and>
           set new \<subseteq> column_name p ` (set kws \<union> {''score''})"
    using d by (auto simp: names_setitem)
qed

lemma frame_ok_setitem: "frame_ok df \<Longrightarrow> length v = nrows df \<Longrightarrow> frame_ok (setitem df name v)"
proof -
  have "list_all (\<lambda>(name, v). length v = n) al \<Longrightarrow> length v = n \<Longrightarrow>
        list_all (\<lambda>(name, v). length v = n) (AList.update name v al)" for n and al :: "(string \<times> cell list) list"
    by (induction al) auto
  then show "frame_ok df \<Longrightarrow> length v = nrows df \<Longrightarrow> frame_ok (setitem df name v)"
    by (simp add: frame_ok_def setitem_def)
qed



section \<open>Signal strength of the post frame\<close>

lemma apply_add_space:
  "apply_cells (\<lambda>x. add_cell x (StrCell '' '')) (map (\<lambda>q. StrCell (f q)) posts) =
     Inr (map (\<lambda>q. StrCell (f q @ '' '')) posts)"
  by (induction posts) auto

lemma add_columns_strs:
  "add_columns (map (\<lambda>q. StrCell (f q)) posts) (map (\<lambda>q. StrCell (g q)) posts) =
     Inr (map (\<lambda>q. StrCell (f q @ g q)) posts)"
  by (induction posts) auto

lemma frame_ok_DataFrame_posts: "frame_ok (DataFrame_posts posts)"
  by (simp add: frame_ok_def DataFrame_posts_def)

lemma add_full_text_posts:
  "posts \<noteq> [] \<Longrightarrow>
     add_full_text (DataFrame_posts posts) =
       Inr (setitem (DataFrame_posts posts) ''full_text''
              (map (\<lambda>q. StrCell (title q @ '' '' @ body q)) posts))"
proof -
  assume ne: "posts \<noteq> []"
  have t: "getitem (DataFrame_posts posts) ''title'' = Inr (map (\<lambda>q. StrCell (title q)) posts)"
    using ne by (simp add: getitem_def DataFrame_posts_def)
  have b: "getitem (DataFrame_posts posts) ''body'' = Inr (map (\<lambda>q. StrCell (body q)) posts)"
    using ne by (simp add: getitem_def DataFrame_posts_def)
  show ?thesis
    by (simp add: add_full_text_def t b apply_add_space add_columns_strs)
qed

lemma posts_signal:
  assumes ne: "posts \<noteq> []" and nc: "''full_text'' \<notin> column_name p ` set kws"
    and kb: "length kws < 2 ^ 63"
    and bd: "in_int64 (sum_list (map (\<lambda>q. int (length (filter (\<lambda>k. keyword_flag k (title q @ '' '' @ body q) = 1) kws))) posts))"
  shows "and_then (add_full_text (DataFrame_posts posts))
           (\<lambda>df. and_then (keyword_analysis df ''full_text'' kws p)
           (\<lambda>df. calculate_signal_strength df p)) =
         Inr ((of_int (sum_list (map (\<lambda>q. int (length (filter (\<lambda>k. keyword_flag k (title q @ '' '' @ body q) = 1) kws))) posts))
                / real (length posts)) * 100)"
proof -
  let ?ft = "\<lambda>q. title q @ '' '' @ body q"
  let ?F = "setitem (DataFrame_posts posts) ''full_text'' (map (\<lambda>q. StrCell (?ft q)) posts)"
  let ?sc = "map (\<lambda>q. int (length (filter (\<lambda>k. keyword_flag k (?ft q) = 1) kws))) posts"
  have n0: "nrows (DataFrame_posts posts) = length posts"
    using ne by (simp add: DataFrame_posts_def)
  have fr: "frame_ok ?F"
    by (rule frame_ok_setitem) (simp_all add: frame_ok_DataFrame_posts n0)
  have tx: "getitem ?F ''full_text'' = Inr (map StrCell (map ?ft posts))"
    by (simp add: getitem_setitem comp_def)
  from keyword_analysis_total[OF fr tx nc kb] obtain df' where
    ok: "keyword_analysis ?F ''full_text'' kws p = Inr df'" by blast
  have sc: "getitem df' (column_name p ''score'') = Inr (map IntCell ?sc)"
    using keyword_analysis_result(1)[OF ok fr tx kb] by (simp add: comp_def)
  have n: "nrows df' = length posts"
    using keyword_analysis_frame(1)[OF ok] n0 by (simp add: nrows_setitem)
  have pos: "0 < nrows df'" using n ne by simp
  have "calculate_signal_strength df' p = Inr ((of_int (sum_list ?sc) / real (nrows df')) * 100)"
    by (rule signal_strength_ints[OF pos sc bd])
  then have r: "calculate_signal_strength df' p = Inr ((of_int (sum_list ?sc) / real (length posts)) * 100)"
    by (simp only: n)
  have "and_then (add_full_text (DataFrame_posts posts))
           (\<lambda>df. and_then (keyword_analysis df ''full_text'' kws p)
           (\<lambda>df. calculate_signal_strength df p)) = calculate_signal_strength df' p"
    using ok by (simp add: add_full_text_posts[OF ne] and_then_def)
  with r show ?thesis by (simp only:)
qed

lemma lexicons_short:
  "length MERGER_KEYWORDS < 2 ^ 63" "length LAYOFF_KEYWORDS < 2 ^ 63"
  "length REASSIGNMENT_KEYWORDS < 2 ^ 63" "length REDUCED_WORKLOAD_KEYWORDS < 2 ^ 63"
  by (simp_all add: MERGER_KEYWORDS_def LAYOFF_KEYWORDS_def REASSIGNMENT_KEYWORDS_def
        REDUCED_WORKLOAD_KEYWORDS_def)

lemma merger_not_full_text: "''full_text'' \<notin> column_name ''merger'' ` set kws"
  by (auto simp: column_name_def)

lemma merger_count:
  assumes "\<forall>k\<in>set MERGER_KEYWORDS. k \<noteq> ''merger'' \<longrightarrow> keyword_flag k t = 0"
  shows "int (length (filter (\<lambda>k. keyword_flag k t = 1) MERGER_KEYWORDS)) = keyword_flag ''merger'' t"
  using assms keyword_flag_01[of "''merger''" t] by (auto simp: MERGER_KEYWORDS_def)

lemma three_posts_signal:
  assumes len: "length posts = 3"
    and one: "\<exists>i<3. keyword_flag ''merger'' (title (posts ! i) @ '' '' @ body (posts ! i)) = 1 \<and>
                (\<forall>j<3. j \<noteq> i \<longrightarrow> keyword_flag ''merger'' (title (posts ! j) @ '' '' @ body (posts ! j)) = 0)"
    and others: "\<forall>k\<in>set MERGER_KEYWORDS. k \<noteq> ''merger'' \<longrightarrow>
                (\<forall>q\<in>set posts. keyword_flag k (title q @ '' '' @ body q) = 0)"
  shows "and_then (add_full_text (DataFrame_posts posts))
           (\<lambda>df. and_then (keyword_analysis df ''full_text'' MERGER_KEYWORDS ''merger'')
           (\<lambda>df. calculate_signal_strength df ''merger'')) = Inr ((1 / 3) * 100)"
proof -
  let ?ft = "\<lambda>q. title q @ '' '' @ body q"
  let ?m = "\<lambda>q. keyword_flag ''merger'' (?ft q)"
  from len obtain a b c where p: "posts = [a, b, c]"
    by (auto simp: numeral_3_eq_3 length_Suc_conv)
  have cnt: "int (length (filter (\<lambda>k. keyword_flag k (?ft q) = 1) MERGER_KEYWORDS)) = ?m q"
    if "q \<in> set posts" for q
    using others that by (intro merger_count) blast
  from one obtain i where i: "i < 3" "?m (posts ! i) = 1"
    "\<forall>j<3. j \<noteq> i \<longrightarrow> ?m (posts ! j) = 0" by blast
  from i(1) consider "i = 0" | "i = 1" | "i = 2" by linarith
  then have tot: "?m a + ?m b + ?m c = 1"
  proof cases
    case 1
    with i(2) i(3)[rule_format, of 1] i(3)[rule_format, of 2] p show ?thesis by simp
  next
    case 2
    with i(2) i(3)[rule_format, of 0] i(3)[rule_format, of 2] p show ?thesis by simp
  next
    case 3
    with i(2) i(3)[rule_format, of 0] i(3)[rule_format, of 1] p show ?thesis by simp
  qed
  have ne: "posts \<noteq> []" using p by simp
  have "sum_list (map (\<lambda>q. int (length (filter (\<lambda>k. keyword_flag k (?ft q) = 1) MERGER_KEYWORDS))) posts)
      = sum_list (map ?m posts)"
    using cnt by (intro arg_cong[where f = sum_list] map_cong) auto
  also have "\<dots> = 1" using tot p by simp
  finally have one: "sum_list (map (\<lambda>q. int (length (filter (\<lambda>k. keyword_flag k (?ft q) = 1) MERGER_KEYWORDS))) posts) = 1" .
  then have "in_int64 (sum_list (map (\<lambda>q. int (length (filter (\<lambda>k. keyword_flag k (?ft q) = 1) MERGER_KEYWORDS))) posts))"
    by (simp add: in_int64_def)
  from posts_signal[OF ne merger_not_full_text lexicons_short(1) this] one len show ?thesis by simp
qed


lemma sum_axis1_no_rows: "sum_axis1 0 vs = Inr sc \<Longrightarrow> sc = []"
proof (induction vs arbitrary: sc)
  case Nil
  then show ?case by simp
next
  case (Cons v vs)
  from Cons.prems obtain acc where a: "sum_axis1 0 vs = Inr acc" and s: "add_columns v acc = Inr sc"
    by (auto split: sum.splits)
  from Cons.IH[OF a] have "acc = []" .
  with s show ?case by (cases v) auto
qed

lemma empty_annotated_signal:
  assumes "nrows df = 0" and ok: "keyword_analysis df tc kws p = Inr df'"
  shows "calculate_signal_strength df' p = Inr 0"
proof -
  from ok obtain df1 vs sc where
    l: "keyword_loop df tc kws p = Inr df1"
    and a: "sum_axis1 (nrows df1) vs = Inr sc"
    and d: "df' = setitem df1 (column_name p ''score'') sc"
    by (auto simp: keyword_analysis_def split: sum.splits)
  have n: "nrows df1 = 0" using keyword_loop_frame[OF l] assms(1) by simp
  with a have "sc = []" using sum_axis1_no_rows by simp
  then show ?thesis using d n
    by (simp add: calculate_signal_strength_def getitem_setitem nrows_setitem sum_cells_def)
qed

section \<open>Signal strength\<close>

text \<open>
  Claim C1. On a frame with at least one row whose score column for the category holds the
  integer scores of the records, \<^verbatim>\<open>calculate_signal_strength\<close> returns the sum of
  the scores divided by the number of rows, times 100. The sum is the total of an int64
  column, so it is required to lie in the int64 range; the scores the annotator writes are
  counts of keywords, and their sum lies in that range for every record set a machine can
  hold. For any three posts with ASCII titles and bodies of which exactly one has the
  keyword "merger" in its title-plus-body text and none has another merger keyword,
  building the frame,
  annotating it with the merger lexicon and measuring gives (1/3)*100. A single post with
  two merger keywords gives 200, which exceeds 100.
\<close>

theorem signal_strength_is_scaled_mean:
  "(0 < nrows df \<and> getitem df (column_name column_prefix ''score'') = Inr (map IntCell scores) \<and>
    in_int64 (sum_list scores) \<longrightarrow>
      calculate_signal_strength df column_prefix =
        Inr ((of_int (sum_list scores) / real (nrows df)) * 100)) \<and>
   (length posts = 3 \<and>
    (\<forall>q\<in>set posts. ascii_text (title q) \<and> ascii_text (body q)) \<and>
    (\<exists>i<3. keyword_flag ''merger'' (title (posts ! i) @ '' '' @ body (posts ! i)) = 1 \<and>
       (\<forall>j<3. j \<noteq> i \<longrightarrow>
          keyword_flag ''merger'' (title (posts ! j) @ '' '' @ body (posts ! j)) = 0)) \<and>
    (\<forall>k\<in>set MERGER_KEYWORDS. k \<noteq> ''merger'' \<longrightarrow>
       (\<forall>q\<in>set posts. keyword_flag k (title q @ '' '' @ body q) = 0)) \<longrightarrow>
      and_then (add_full_text (DataFrame_posts posts))
        (\<lambda>df. and_then (keyword_analysis df ''full_text'' MERGER_KEYWORDS ''merger'')
        (\<lambda>df. calculate_signal_strength df ''merger'')) = Inr ((1 / 3) * 100)) \<and>
   and_then (add_full_text (DataFrame_posts
       [\<lparr>title = ''Merger'', score = 7, ident = ''p1'', url = ''u1'', comms_num = 0,
         created = 10, body = ''a buyout''\<rparr>]))
     (\<lambda>df. and_then (keyword_analysis df ''full_text'' MERGER_KEYWORDS ''merger'')
     (\<lambda>df. calculate_signal_strength df ''merger'')) = Inr 200 \<and>
   (100 :: real) < 200"
proof (intro conjI impI)
  assume "0 < nrows df \<and> getitem df (column_name column_prefix ''score'') = Inr (map IntCell scores) \<and>
    in_int64 (sum_list scores)"
  then show "calculate_signal_strength df column_prefix =
        Inr ((of_int (sum_list scores) / real (nrows df)) * 100)"
    using signal_strength_ints by blast
next
  assume "length posts = 3 \<and>
    (\<forall>q\<in>set posts. ascii_text (title q) \<and> ascii_text (body q)) \<and>
    (\<exists>i<3. keyword_flag ''merger'' (title (posts ! i) @ '' '' @ body (posts ! i)) = 1 \<and>
       (\<forall>j<3. j \<noteq> i \<longrightarrow>
          keyword_flag ''merger'' (title (posts ! j) @ '' '' @ body (posts ! j)) = 0)) \<and>
    (\<forall>k\<in>set MERGER_KEYWORDS. k \<noteq> ''merger'' \<longrightarrow>
       (\<forall>q\<in>set posts. keyword_flag k (title q @ '' '' @ body q) = 0))"
  then show "and_then (add_full_text (DataFrame_posts posts))
        (\<lambda>df. and_then (keyword_analysis df ''full_text'' MERGER_KEYWORDS ''merger'')
        (\<lambda>df. calculate_signal_strength df ''merger'')) = Inr ((1 / 3) * 100)"
    using three_posts_signal by blast
next
  show "and_then (add_full_text (DataFrame_posts
       [\<lparr>title = ''Merger'', score = 7, ident = ''p1'', url = ''u1'', comms_num = 0,
         created = 10, body = ''a buyout''\<rparr>]))
     (\<lambda>df. and_then (keyword_analysis df ''full_text'' MERGER_KEYWORDS ''merger'')
     (\<lambda>df. calculate_signal_strength df ''merger'')) = Inr 200"
    by code_simp
next
  show "(100 :: real) < 200" by simp
qed

theorem signal_strength_is_scaled_mean_witness:
  "0 < nrows \<lparr>nrows = 2, cols = [(''merger_score'', [IntCell 2, IntCell 1])]\<rparr> \<and>
   getitem \<lparr>nrows = 2, cols = [(''merger_score'', [IntCell 2, IntCell 1])]\<rparr>
     (column_name ''merger'' ''score'') = Inr (map IntCell [2, 1]) \<and>
   in_int64 (sum_list [2, 1]) \<and>
   calculate_signal_strength \<lparr>nrows = 2, cols = [(''merger_score'', [IntCell 2, IntCell 1])]\<rparr>
     ''merger'' = Inr 150 \<and>
   and_then (add_full_text (DataFrame_posts
       [\<lparr>title = ''Lunch'', score = 2, ident = ''p1'', url = ''u1'', comms_num = 0,
         created = 10, body = ''soup''\<rparr>,
        \<lparr>title = ''A Merger'', score = 5, ident = ''p2'', url = ''u2'', comms_num = 1,
         created = 20, body = ''soon''\<rparr>,
        \<lparr>title = ''Parking'', score = 1, ident = ''p3'', url = ''u3'', comms_num = 0,
         created = 30, body = ''''\<rparr>]))
     (\<lambda>df. and_then (keyword_analysis df ''full_text'' MERGER_KEYWORDS ''merger'')
     (\<lambda>df. calculate_signal_strength df ''merger'')) = Inr ((1 / 3) * 100)"
proof -
  let ?df = "\<lparr>nrows = 2, cols = [(''merger_score'', [IntCell 2, IntCell 1])]\<rparr>"
  let ?posts = "[\<lparr>title = ''Lunch'', score = 2, ident = ''p1'', url = ''u1'', comms_num = 0,
         created = 10, body = ''soup''\<rparr>,
        \<lparr>title = ''A Merger'', score = 5, ident = ''p2'', url = ''u2'', comms_num = 1,
         created = 20, body = ''soon''\<rparr>,
        \<lparr>title = ''Parking'', score = 1, ident = ''p3'', url = ''u3'', comms_num = 0,
         created = 30, body = ''''\<rparr>]"
  have h1: "0 < nrows ?df \<and> getitem ?df (column_name ''merger'' ''score'') = Inr (map IntCell [2, 1]) \<and>
      in_int64 (sum_list [2, 1])"
    by (simp add: getitem_def column_name_def in_int64_def)
  have len: "length ?posts = 3" by simp
  have asc: "\<forall>q\<in>set ?posts. ascii_text (title q) \<and> ascii_text (body q)"
    by (simp add: ascii_text_def is_ascii_def)
  have "keyword_flag ''merger'' (title (?posts ! 1) @ '' '' @ body (?posts ! 1)) = 1 \<and>
       (\<forall>j<3. j \<noteq> 1 \<longrightarrow>
          keyword_flag ''merger'' (title (?posts ! j) @ '' '' @ body (?posts ! j)) = 0)"
    by code_simp
  then have one: "\<exists>i<3. keyword_flag ''merger'' (title (?posts ! i) @ '' '' @ body (?posts ! i)) = 1 \<and>
       (\<forall>j<3. j \<noteq> i \<longrightarrow>
          keyword_flag ''merger'' (title (?posts ! j) @ '' '' @ body (?posts ! j)) = 0)"
    by (intro exI[of _ 1]) simp
  have others: "\<forall>k\<in>set MERGER_KEYWORDS. k \<noteq> ''merger'' \<longrightarrow>
       (\<forall>q\<in>set ?posts. keyword_flag k (title q @ '' '' @ body q) = 0)"
    by code_simp
  from signal_strength_is_scaled_mean[of ?df "''merger''" "[2, 1]" ?posts] h1 len asc one others
  show ?thesis by simp
qed

text \<open>
  Claim C2. On a frame without rows that carries the score column of the category,
  \<^verbatim>\<open>calculate_signal_strength\<close> returns 0; in particular it returns 0 on every frame
  without rows that \<^verbatim>\<open>keyword_analysis\<close> has annotated for the category. On no frame
  and for no category does it raise a division error: the division is guarded by the row
  count.
\<close>

theorem empty_collection_signal:
  "(nrows df = 0 \<and> frame_ok df \<and> getitem df (column_name column_prefix ''score'') = Inr v
      \<longrightarrow> calculate_signal_strength df column_prefix = Inr 0) \<and>
   (nrows df = 0 \<and> keyword_analysis df text_column keywords column_prefix = Inr df'
      \<longrightarrow> calculate_signal_strength df' column_prefix = Inr 0) \<and>
   calculate_signal_strength df column_prefix \<noteq> Inl ZeroDivisionError"
proof (intro conjI impI)
  assume "nrows df = 0 \<and> frame_ok df \<and> getitem df (column_name column_prefix ''score'') = Inr v"
  then have e: "nrows df = 0" "frame_ok df" "getitem df (column_name column_prefix ''score'') = Inr v"
    by simp_all
  then have "v = []" using getitem_frame_ok by fastforce
  with e show "calculate_signal_strength df column_prefix = Inr 0"
    by (simp add: calculate_signal_strength_def sum_cells_def)
next
  assume "nrows df = 0 \<and> keyword_analysis df text_column keywords column_prefix = Inr df'"
  then have "nrows df = 0" "keyword_analysis df text_column keywords column_prefix = Inr df'"
    by simp_all
  then show "calculate_signal_strength df' column_prefix = Inr 0"
    by (rule empty_annotated_signal)
next
  show "calculate_signal_strength df column_prefix \<noteq> Inl ZeroDivisionError"
    by (rule signal_never_divides_by_zero)
qed

theorem empty_collection_signal_witness:
  "nrows \<lparr>nrows = 0, cols = [(''comment_body'', [])]\<rparr> = 0 \<and>
   keyword_analysis \<lparr>nrows = 0, cols = [(''comment_body'', [])]\<rparr> ''comment_body''
       [''layoff'', ''fired''] ''layoff''
     = Inr \<lparr>nrows = 0, cols = [(''comment_body'', []), (''layoff_layoff'', []),
                                (''layoff_fired'', []), (''layoff_score'', [])]\<rparr> \<and>
   frame_ok \<lparr>nrows = 0, cols = [(''comment_body'', []), (''layoff_layoff'', []),
                                (''layoff_fired'', []), (''layoff_score'', [])]\<rparr> \<and>
   getitem \<lparr>nrows = 0, cols = [(''comment_body'', []), (''layoff_layoff'', []),
                                (''layoff_fired'', []), (''layoff_score'', [])]\<rparr>
     (column_name ''layoff'' ''score'') = Inr [] \<and>
   calculate_signal_strength
     \<lparr>nrows = 0, cols = [(''comment_body'', []), (''layoff_layoff'', []),
                          (''layoff_fired'', []), (''layoff_score'', [])]\<rparr> ''layoff'' = Inr 0"
proof -
  let ?df = "\<lparr>nrows = 0, cols = [(''comment_body'', [])]\<rparr>"
  let ?out = "\<lparr>nrows = 0, cols = [(''comment_body'', []), (''layoff_layoff'', []),
                                (''layoff_fired'', []), (''layoff_score'', [])]\<rparr>"
  have n: "nrows ?df = 0" by simp
  have k: "keyword_analysis ?df ''comment_body'' [''layoff'', ''fired''] ''layoff'' = Inr ?out"
    by code_simp
  have f: "frame_ok ?out" by (simp add: frame_ok_def)
  have g: "getitem ?out (column_name ''layoff'' ''score'') = Inr []"
    by (simp add: getitem_def column_name_def)
  note T = empty_collection_signal[of ?df "''layoff''" "[]" "''comment_body''" "[''layoff'', ''fired'']" ?out]
  from T[THEN conjunct2, THEN conjunct1, THEN mp, OF conjI[OF n k]]
  have c: "calculate_signal_strength ?out ''layoff'' = Inr 0" .
  from n k f g c show ?thesis by (intro conjI)
qed

section \<open>Keyword annotation\<close>

text \<open>
  Claim C3, as amended. Take a frame whose text column holds ASCII strings and a list of
  fewer than \<open>2 ^ 63\<close> ASCII keywords (a row total of flags then stays in the int64
  range). \<^verbatim>\<open>keyword_analysis\<close> returns whenever no flag column has the name
  of the text column. Let it return. For every keyword of the list other than the literal
  "score", the flag column of the keyword holds, for each record, the flag of the keyword
  on the record's text; a flag is 0 or 1, and it is 1 exactly when the lower-cased keyword
  occurs as a substring of the lower-cased text. The category score of each record is the
  number of keywords of the list whose flag on that record is 1. The keyword "score" is
  excluded because its flag column has the name of the category-score column, which is
  assigned last.
\<close>

theorem keyword_analysis_flags_and_score:
  assumes "frame_ok df"
    and "getitem df text_column = Inr (map StrCell texts)"
    and "\<forall>t\<in>set texts. ascii_text t"
    and "\<forall>k\<in>set keywords. ascii_text k"
    and "length keywords < 2 ^ 63"
  shows "(text_column \<notin> column_name column_prefix ` set keywords \<longrightarrow>
            (\<exists>d. keyword_analysis df text_column keywords column_prefix = Inr d)) \<and>
         (keyword_analysis df text_column keywords column_prefix = Inr df' \<longrightarrow>
            (\<forall>k\<in>set keywords. k \<noteq> ''score'' \<longrightarrow>
               getitem df' (column_name column_prefix k) =
                 Inr (map (\<lambda>t. IntCell (keyword_flag k t)) texts)) \<and>
            getitem df' (column_name column_prefix ''score'') =
              Inr (map (\<lambda>t. IntCell (int (length (filter (\<lambda>k. keyword_flag k t = 1) keywords))))
                     texts)) \<and>
         (\<forall>k\<in>set keywords. \<forall>t\<in>set texts. (keyword_flag k t = 0 \<or> keyword_flag k t = 1) \<and>
            (keyword_flag k t = 1 \<longleftrightarrow> (\<exists>a b. lower t = a @ lower k @ b)))"
proof (intro conjI impI)
  assume "text_column \<notin> column_name column_prefix ` set keywords"
  with assms(1,2) show "\<exists>d. keyword_analysis df text_column keywords column_prefix = Inr d"
    using assms(5) by (rule keyword_analysis_total)
next
  assume ok: "keyword_analysis df text_column keywords column_prefix = Inr df'"
  show "\<forall>k\<in>set keywords. k \<noteq> ''score'' \<longrightarrow>
               getitem df' (column_name column_prefix k) =
                 Inr (map (\<lambda>t. IntCell (keyword_flag k t)) texts)"
    using keyword_analysis_result(2)[OF ok assms(1,2,5)] by blast
  show "getitem df' (column_name column_prefix ''score'') =
              Inr (map (\<lambda>t. IntCell (int (length (filter (\<lambda>k. keyword_flag k t = 1) keywords))))
                     texts)"
    by (rule keyword_analysis_result(1)[OF ok assms(1,2,5)])
next
  show "\<forall>k\<in>set keywords. \<forall>t\<in>set texts. (keyword_flag k t = 0 \<or> keyword_flag k t = 1) \<and>
            (keyword_flag k t = 1 \<longleftrightarrow> (\<exists>a b. lower t = a @ lower k @ b))"
    using keyword_flag_01 keyword_flag_1_iff by blast
qed

theorem keyword_analysis_flags_and_score_witness:
  "frame_ok \<lparr>nrows = 2, cols = [(''text'', [StrCell ''Layoff and BUYOUT'', StrCell ''''])]\<rparr> \<and>
   getitem \<lparr>nrows = 2, cols = [(''text'', [StrCell ''Layoff and BUYOUT'', StrCell ''''])]\<rparr> ''text''
     = Inr (map StrCell [''Layoff and BUYOUT'', '''']) \<and>
   list_all ascii_text [''Layoff and BUYOUT'', ''''] \<and>
   list_all ascii_text [''buyout'', ''merger'', ''LAYOFF''] \<and>
   length [''buyout'', ''merger'', ''LAYOFF''] < 2 ^ 63 \<and>
   keyword_analysis \<lparr>nrows = 2, cols = [(''text'', [StrCell ''Layoff and BUYOUT'', StrCell ''''])]\<rparr>
       ''text'' [''buyout'', ''merger'', ''LAYOFF''] ''p''
     = Inr \<lparr>nrows = 2,
            cols = [(''text'', [StrCell ''Layoff and BUYOUT'', StrCell '''']),
                    (''p_buyout'', [IntCell 1, IntCell 0]),
                    (''p_merger'', [IntCell 0, IntCell 0]),
                    (''p_LAYOFF'', [IntCell 1, IntCell 0]),
                    (''p_score'', [IntCell 2, IntCell 0])]\<rparr> \<and>
   getitem \<lparr>nrows = 2,
            cols = [(''text'', [StrCell ''Layoff and BUYOUT'', StrCell '''']),
                    (''p_buyout'', [IntCell 1, IntCell 0]),
                    (''p_merger'', [IntCell 0, IntCell 0]),
                    (''p_LAYOFF'', [IntCell 1, IntCell 0]),
                    (''p_score'', [IntCell 2, IntCell 0])]\<rparr> (column_name ''p'' ''score'')
     = Inr (map (\<lambda>t. IntCell (int (length (filter (\<lambda>k. keyword_flag k t = 1)
              [''buyout'', ''merger'', ''LAYOFF'']))))
            [''Layoff and BUYOUT'', ''''])"
proof -
  let ?df = "\<lparr>nrows = 2, cols = [(''text'', [StrCell ''Layoff and BUYOUT'', StrCell ''''])]\<rparr>"
  let ?out = "\<lparr>nrows = 2,
            cols = [(''text'', [StrCell ''Layoff and BUYOUT'', StrCell '''']),
                    (''p_buyout'', [IntCell 1, IntCell 0]),
                    (''p_merger'', [IntCell 0, IntCell 0]),
                    (''p_LAYOFF'', [IntCell 1, IntCell 0]),
                    (''p_score'', [IntCell 2, IntCell 0])]\<rparr>"
  have h1: "frame_ok ?df" by (simp add: frame_ok_def)
  have h2: "getitem ?df ''text'' = Inr (map StrCell [''Layoff and BUYOUT'', ''''])"
    by (simp add: getitem_def)
  have a1: "\<forall>t\<in>set [''Layoff and BUYOUT'', '''']. ascii_text t"
    by (simp add: ascii_text_def is_ascii_def)
  have a2: "\<forall>k\<in>set [''buyout'', ''merger'', ''LAYOFF'']. ascii_text k"
    by (simp add: ascii_text_def is_ascii_def)
  have a3: "length [''buyout'', ''merger'', ''LAYOFF''] < 2 ^ 63" by simp
  have h3: "keyword_analysis ?df ''text'' [''buyout'', ''merger'', ''LAYOFF''] ''p'' = Inr ?out"
    by code_simp
  note T = keyword_analysis_flags_and_score[OF h1 h2 a1 a2 a3, of "''p''" ?out]
  from T[THEN conjunct2, THEN conjunct1, THEN mp, OF h3, THEN conjunct2]
  have c: "getitem ?out (column_name ''p'' ''score'') =
      Inr (map (\<lambda>t. IntCell (int (length (filter (\<lambda>k. keyword_flag k t = 1)
              [''buyout'', ''merger'', ''LAYOFF'']))))
            [''Layoff and BUYOUT'', ''''])" .
  have b1: "list_all ascii_text [''Layoff and BUYOUT'', '''']"
    by (simp add: ascii_text_def is_ascii_def)
  have b2: "list_all ascii_text [''buyout'', ''merger'', ''LAYOFF'']"
    by (simp add: ascii_text_def is_ascii_def)
  from h1 h2 b1 b2 a3 h3 c show ?thesis by (intro conjI)
qed

theorem keyword_analysis_flags_and_score_counterexample:
  "keyword_analysis \<lparr>nrows = 1, cols = [(''text'', [StrCell ''a score''])]\<rparr>
       ''text'' [''score'', ''a''] ''p''
     = Inr \<lparr>nrows = 1,
            cols = [(''text'', [StrCell ''a score'']),
                    (''p_score'', [IntCell 2]),
                    (''p_a'', [IntCell 1])]\<rparr> \<and>
   column_name ''p'' ''score'' = ''p_score'' \<and>
   IntCell 2 \<noteq> IntCell 0 \<and> IntCell 2 \<noteq> IntCell 1"
  by code_simp

section \<open>Frame of the annotators\<close>




section \<open>Sentiment annotation\<close>

lemma apply_sentiment_cells:
  "apply_cells (sentiment_cell pol) (map StrCell texts) = Inr (map (\<lambda>t. FloatCell (pol t)) texts)"
  by (induction texts) (auto simp: sentiment_cell_def)

section \<open>The pipeline on an empty forum\<close>

text \<open>
  Claim C4. A forum that yields no post yields no comment either, and both frames are
  built from empty lists. The run then stops at the first statement that reads a column,
  \<^verbatim>\<open>posts_df['title']\<close>, with \<^verbatim>\<open>KeyError\<close>: no report is produced.
\<close>

theorem empty_forum_raises:
  "analyze_company pol [] [] = Inl (KeyError ''title'')"
  by (simp add: analyze_company_def and_then_def add_full_text_def DataFrame_posts_def getitem_def)

section \<open>The pipeline on a forum with posts and comments\<close>

lemma spec_category_score_count:
  "spec_category_score kws t = int (length (filter (\<lambda>k. keyword_flag k t = 1) kws))"
  by (simp add: spec_category_score_def sum_flags_count)

lemma spec_category_score_bounds:
  "0 \<le> spec_category_score kws t \<and> spec_category_score kws t \<le> int (length kws)"
proof -
  have "length (filter (\<lambda>k. keyword_flag k t = 1) kws) \<le> length kws" by simp
  then show ?thesis by (simp add: spec_category_score_count)
qed

lemma spec_scores_sum_bounds:
  "0 \<le> sum_list (map (spec_category_score kws) texts) \<and>
   sum_list (map (spec_category_score kws) texts) \<le> int (length texts) * int (length kws)"
proof (induction texts)
  case Nil
  show ?case by simp
next
  case (Cons t ts)
  from spec_category_score_bounds[of kws t] Cons show ?case
    by (simp add: algebra_simps)
qed

lemma spec_scores_in_int64:
  assumes "length kws \<le> 16" and "length texts < 2 ^ 59"
  shows "in_int64 (sum_list (map (spec_category_score kws) texts))"
proof -
  let ?s = "sum_list (map (spec_category_score kws) texts)"
  have "int (length texts) * int (length kws) \<le> int (length texts) * 16"
    using assms(1) by (intro mult_left_mono) simp_all
  moreover have "int (length texts) < int (2 ^ 59)"
    using assms(2) by (simp only: of_nat_less_iff)
  then have "int (length texts) * 16 < 9223372036854775808" by simp
  ultimately have "?s < 9223372036854775808"
    using spec_scores_sum_bounds[of kws texts] by linarith
  moreover have "0 \<le> ?s" using spec_scores_sum_bounds[of kws texts] by simp
  ultimately show ?thesis by (simp add: in_int64_def)
qed

lemma lexicon_lengths:
  "length MERGER_KEYWORDS \<le> 16" "length LAYOFF_KEYWORDS \<le> 16"
  "length REASSIGNMENT_KEYWORDS \<le> 16" "length REDUCED_WORKLOAD_KEYWORDS \<le> 16"
  by (simp_all add: MERGER_KEYWORDS_def LAYOFF_KEYWORDS_def REASSIGNMENT_KEYWORDS_def
        REDUCED_WORKLOAD_KEYWORDS_def)

lemma signal_of_scores:
  assumes n: "nrows df = length texts"
    and sc: "getitem df (column_name p ''score'') =
               Inr (map (\<lambda>t. IntCell (spec_category_score kws t)) texts)"
    and bd: "in_int64 (sum_list (map (spec_category_score kws) texts))"
  shows "calculate_signal_strength df p = Inr (spec_signal_strength kws texts)"
proof (cases "texts = []")
  case True
  with n sc show ?thesis
    by (simp add: calculate_signal_strength_def sum_cells_def spec_signal_strength_def)
next
  case False
  then have pos: "0 < nrows df" using n by simp
  have sc': "getitem df (column_name p ''score'') =
      Inr (map IntCell (map (spec_category_score kws) texts))"
    using sc by (simp add: comp_def)
  from signal_strength_ints[OF pos sc' bd] False n show ?thesis
    by (simp add: spec_signal_strength_def)
qed

lemma keyword_loop_frame_ok:
  "frame_ok df \<Longrightarrow> getitem df tc = Inr (map StrCell texts) \<Longrightarrow>
     tc \<notin> column_name p ` set kws \<Longrightarrow> keyword_loop df tc kws p = Inr df1 \<Longrightarrow> frame_ok df1"
proof (induction kws arbitrary: df)
  case Nil
  then show ?case by simp
next
  case (Cons k ks)
  let ?v = "map (\<lambda>t. IntCell (keyword_flag k t)) texts"
  let ?d = "setitem df (column_name p k) ?v"
  have len: "length ?v = nrows df"
    using getitem_frame_ok[OF Cons.prems(1,2)] by simp
  have 1: "frame_ok ?d" using Cons.prems(1) len by (rule frame_ok_setitem)
  have 2: "getitem ?d tc = Inr (map StrCell texts)"
    using Cons.prems(2,3) by (auto simp: getitem_setitem)
  have 3: "tc \<notin> column_name p ` set ks" using Cons.prems(3) by auto
  have 4: "keyword_loop ?d tc ks p = Inr df1"
    using Cons.prems(2,4) by (simp add: apply_flag_cells)
  from Cons.IH[OF 1 2 3 4] show ?case .
qed


lemma keyword_analysis_step:
  assumes fr: "frame_ok df"
    and tx: "getitem df tc = Inr (map StrCell texts)"
    and nc: "\<forall>k. tc \<noteq> column_name p k"
    and bd: "length kws < 2 ^ 63"
  shows "\<exists>df'. keyword_analysis df tc kws p = Inr df' \<and> frame_ok df' \<and> nrows df' = nrows df \<and>
           getitem df' tc = Inr (map StrCell texts) \<and>
           (\<forall>c. (\<forall>k. c \<noteq> column_name p k) \<longrightarrow> getitem df' c = getitem df c) \<and>
           getitem df' (column_name p ''score'') =
             Inr (map (\<lambda>t. IntCell (spec_category_score kws t)) texts) \<and>
           (\<forall>k\<in>set kws. k \<noteq> ''score'' \<longrightarrow>
              (\<exists>fl. getitem df' (column_name p k) = Inr (map IntCell fl)))"
proof -
  have nc': "tc \<notin> column_name p ` set kws" using nc by auto
  from keyword_analysis_total[OF fr tx nc' bd] obtain df' where
    ok: "keyword_analysis df tc kws p = Inr df'" by blast
  from ok obtain df1 sc where
    l: "keyword_loop df tc kws p = Inr df1"
    and d: "df' = setitem df1 (column_name p ''score'') sc"
    by (auto simp: keyword_analysis_def split: sum.splits)
  have f1: "frame_ok df1" by (rule keyword_loop_frame_ok[OF fr tx nc' l])
  have n1: "nrows df1 = nrows df" using keyword_loop_frame[OF l] by simp
  have n: "nrows df' = nrows df" by (rule keyword_analysis_frame(1)[OF ok])
  have sc: "getitem df' (column_name p ''score'') =
      Inr (map (\<lambda>t. IntCell (int (length (filter (\<lambda>k. keyword_flag k t = 1) kws)))) texts)"
    by (rule keyword_analysis_result(1)[OF ok fr tx bd])
  then have "sc = map (\<lambda>t. IntCell (int (length (filter (\<lambda>k. keyword_flag k t = 1) kws)))) texts"
    using d by (simp add: getitem_setitem)
  then have "length sc = nrows df1" using getitem_frame_ok[OF fr tx] n1 by simp
  with f1 have f: "frame_ok df'" unfolding d by (rule frame_ok_setitem)
  have keep: "getitem df' c = getitem df c" if "\<forall>k. c \<noteq> column_name p k" for c
    using that by (intro keyword_analysis_frame(2)[OF ok]) auto
  have t: "getitem df' tc = Inr (map StrCell texts)" using keep[OF nc] tx by simp
  have s: "getitem df' (column_name p ''score'') =
      Inr (map (\<lambda>t. IntCell (spec_category_score kws t)) texts)"
    using sc by (simp add: spec_category_score_count)
  have fl: "\<exists>fl. getitem df' (column_name p k) = Inr (map IntCell fl)"
    if "k \<in> set kws" "k \<noteq> ''score''" for k
  proof
    show "getitem df' (column_name p k) = Inr (map IntCell (map (keyword_flag k) texts))"
      using keyword_analysis_result(2)[OF ok fr tx bd that] by (simp add: comp_def)
  qed
  from ok f n t keep s fl show ?thesis by blast
qed

lemma plot_keyword_frequency_ok:
  "(\<And>k. k \<in> set kws \<Longrightarrow> \<exists>fl. getitem df (column_name p k) = Inr (map IntCell fl)) \<Longrightarrow>
     plot_keyword_frequency df kws p = Inr ()"
proof (induction kws)
  case Nil
  show ?case by simp
next
  case (Cons k ks)
  from Cons.prems[of k] obtain fl where "getitem df (column_name p k) = Inr (map IntCell fl)"
    by auto
  moreover have "plot_keyword_frequency df ks p = Inr ()"
    using Cons by simp
  ultimately show ?case by (simp add: sum_cells_IntCell)
qed

lemma signal_defined:
  "getitem df (column_name p ''score'') = Inr (map (\<lambda>t. IntCell (f t)) texts) \<Longrightarrow>
     \<exists>r. calculate_signal_strength df p = Inr r"
proof -
  assume h: "getitem df (column_name p ''score'') = Inr (map (\<lambda>t. IntCell (f t)) texts)"
  have s: "sum_cells (map (\<lambda>t. IntCell (f t)) texts) = Inr (of_int (wrap64 (sum_list (map f texts))))"
    using sum_cells_IntCell[of "map f texts"] by (simp add: comp_def)
  show ?thesis
    by (simp add: calculate_signal_strength_def h s truediv_def Let_def)
qed

lemma sum_cells_FloatCell: "sum_cells (map FloatCell rs) = Inr (sum_list rs)"
proof (cases rs)
  case Nil
  then show ?thesis by (simp add: sum_cells_def wrap64_def)
next
  case (Cons r rs')
  have "float_items (map FloatCell xs) = Inr xs" for xs
    by (induction xs) auto
  then show ?thesis using Cons by (simp add: sum_cells_def)
qed

lemma str_items_StrCell: "str_items (map StrCell ss) = Inr ss"
  by (induction ss) auto

lemma prefix_columns_apart:
  "column_name ''merger'' a \<noteq> column_name ''layoff'' b"
  "column_name ''merger'' a \<noteq> column_name ''reassign'' b"
  "column_name ''merger'' a \<noteq> column_name ''reduced_work'' b"
  "column_name ''layoff'' a \<noteq> column_name ''reassign'' b"
  "column_name ''layoff'' a \<noteq> column_name ''reduced_work'' b"
  "column_name ''reassign'' a \<noteq> column_name ''reduced_work'' b"
  by (simp_all add: column_name_def)

lemma lexicons_without_score:
  "''score'' \<notin> set MERGER_KEYWORDS"
  by (simp add: MERGER_KEYWORDS_def)

lemma annotate_all:
  assumes fr: "frame_ok df"
    and tx: "getitem df tc = Inr (map StrCell texts)"
    and nc: "\<forall>k. tc \<noteq> column_name ''merger'' k" "\<forall>k. tc \<noteq> column_name ''layoff'' k"
      "\<forall>k. tc \<noteq> column_name ''reassign'' k" "\<forall>k. tc \<noteq> column_name ''reduced_work'' k"
  shows "\<exists>d1 d2 d3 d4.
      keyword_analysis df tc MERGER_KEYWORDS ''merger'' = Inr d1 \<and>
      keyword_analysis d1 tc LAYOFF_KEYWORDS ''layoff'' = Inr d2 \<and>
      keyword_analysis d2 tc REASSIGNMENT_KEYWORDS ''reassign'' = Inr d3 \<and>
      keyword_analysis d3 tc REDUCED_WORKLOAD_KEYWORDS ''reduced_work'' = Inr d4 \<and>
      nrows d4 = nrows df \<and>
      (\<forall>c. (\<forall>k. c \<noteq> column_name ''merger'' k) \<and> (\<forall>k. c \<noteq> column_name ''layoff'' k) \<and>
           (\<forall>k. c \<noteq> column_name ''reassign'' k) \<and> (\<forall>k. c \<noteq> column_name ''reduced_work'' k) \<longrightarrow>
           getitem d4 c = getitem df c) \<and>
      getitem d4 (column_name ''merger'' ''score'') =
        Inr (map (\<lambda>t. IntCell (spec_category_score MERGER_KEYWORDS t)) texts) \<and>
      getitem d4 (column_name ''layoff'' ''score'') =
        Inr (map (\<lambda>t. IntCell (spec_category_score LAYOFF_KEYWORDS t)) texts) \<and>
      getitem d4 (column_name ''reassign'' ''score'') =
        Inr (map (\<lambda>t. IntCell (spec_category_score REASSIGNMENT_KEYWORDS t)) texts) \<and>
      getitem d4 (column_name ''reduced_work'' ''score'') =
        Inr (map (\<lambda>t. IntCell (spec_category_score REDUCED_WORKLOAD_KEYWORDS t)) texts) \<and>
      (\<forall>k\<in>set MERGER_KEYWORDS. \<exists>fl. getitem d4 (column_name ''merger'' k) = Inr (map IntCell fl))"
proof -
  from keyword_analysis_step[OF fr tx nc(1) lexicons_short(1)] obtain d1 where
    a1: "keyword_analysis df tc MERGER_KEYWORDS ''merger'' = Inr d1"
    and f1: "frame_ok d1" and n1: "nrows d1 = nrows df"
    and t1: "getitem d1 tc = Inr (map StrCell texts)"
    and k1: "\<forall>c. (\<forall>k. c \<noteq> column_name ''merger'' k) \<longrightarrow> getitem d1 c = getitem df c"
    and s1: "getitem d1 (column_name ''merger'' ''score'') =
        Inr (map (\<lambda>t. IntCell (spec_category_score MERGER_KEYWORDS t)) texts)"
    and m1: "\<forall>k\<in>set MERGER_KEYWORDS. k \<noteq> ''score'' \<longrightarrow>
              (\<exists>fl. getitem d1 (column_name ''merger'' k) = Inr (map IntCell fl))"
    by blast
  from keyword_analysis_step[OF f1 t1 nc(2) lexicons_short(2)] obtain d2 where
    a2: "keyword_analysis d1 tc LAYOFF_KEYWORDS ''layoff'' = Inr d2"
    and f2: "frame_ok d2" and n2: "nrows d2 = nrows d1"
    and t2: "getitem d2 tc = Inr (map StrCell texts)"
    and k2: "\<forall>c. (\<forall>k. c \<noteq> column_name ''layoff'' k) \<longrightarrow> getitem d2 c = getitem d1 c"
    and s2: "getitem d2 (column_name ''layoff'' ''score'') =
        Inr (map (\<lambda>t. IntCell (spec_category_score LAYOFF_KEYWORDS t)) texts)"
    by blast
  from keyword_analysis_step[OF f2 t2 nc(3) lexicons_short(3)] obtain d3 where
    a3: "keyword_analysis d2 tc REASSIGNMENT_KEYWORDS ''reassign'' = Inr d3"
    and f3: "frame_ok d3" and n3: "nrows d3 = nrows d2"
    and t3: "getitem d3 tc = Inr (map StrCell texts)"
    and k3: "\<forall>c. (\<forall>k. c \<noteq> column_name ''reassign'' k) \<longrightarrow> getitem d3 c = getitem d2 c"
    and s3: "getitem d3 (column_name ''reassign'' ''score'') =
        Inr (map (\<lambda>t. IntCell (spec_category_score REASSIGNMENT_KEYWORDS t)) texts)"
    by blast
  from keyword_analysis_step[OF f3 t3 nc(4) lexicons_short(4)] obtain d4 where
    a4: "keyword_analysis d3 tc REDUCED_WORKLOAD_KEYWORDS ''reduced_work'' = Inr d4"
    and n4: "nrows d4 = nrows d3"
    and k4: "\<forall>c. (\<forall>k. c \<noteq> column_name ''reduced_work'' k) \<longrightarrow> getitem d4 c = getitem d3 c"
    and s4: "getitem d4 (column_name ''reduced_work'' ''score'') =
        Inr (map (\<lambda>t. IntCell (spec_category_score REDUCED_WORKLOAD_KEYWORDS t)) texts)"
    by blast
  have n: "nrows d4 = nrows df" using n1 n2 n3 n4 by simp
  have keep: "\<forall>c. (\<forall>k. c \<noteq> column_name ''merger'' k) \<and> (\<forall>k. c \<noteq> column_name ''layoff'' k) \<and>
        (\<forall>k. c \<noteq> column_name ''reassign'' k) \<and> (\<forall>k. c \<noteq> column_name ''reduced_work'' k) \<longrightarrow>
        getitem d4 c = getitem df c"
    using k1 k2 k3 k4 by simp
  have merger_kept: "getitem d4 (column_name ''merger'' k) = getitem d1 (column_name ''merger'' k)" for k
    using k2 k3 k4 prefix_columns_apart(1,2,3) by simp
  have layoff_kept: "getitem d4 (column_name ''layoff'' k) = getitem d2 (column_name ''layoff'' k)" for k
    using k3 k4 prefix_columns_apart(4,5) by simp
  have reassign_kept: "getitem d4 (column_name ''reassign'' k) = getitem d3 (column_name ''reassign'' k)" for k
    using k4 prefix_columns_apart(6) by simp
  have c1: "getitem d4 (column_name ''merger'' ''score'') =
        Inr (map (\<lambda>t. IntCell (spec_category_score MERGER_KEYWORDS t)) texts)"
    using s1 merger_kept by simp
  have c2: "getitem d4 (column_name ''layoff'' ''score'') =
        Inr (map (\<lambda>t. IntCell (spec_category_score LAYOFF_KEYWORDS t)) texts)"
    using s2 layoff_kept by simp
  have c3: "getitem d4 (column_name ''reassign'' ''score'') =
        Inr (map (\<lambda>t. IntCell (spec_category_score REASSIGNMENT_KEYWORDS t)) texts)"
    using s3 reassign_kept by simp
  have flags: "\<forall>k\<in>set MERGER_KEYWORDS. \<exists>fl. getitem d4 (column_name ''merger'' k) = Inr (map IntCell fl)"
    using m1 merger_kept lexicons_without_score by auto
  from a1 a2 a3 a4 n keep c1 c2 c3 s4 flags show ?thesis by blast
qed

lemma annotated_frame_ready:
  assumes fr: "frame_ok df"
    and tx: "getitem df tc = Inr (map StrCell texts)"
    and se: "getitem df ''sentiment'' = Inr (map FloatCell sents)"
    and cr: "getitem df ''created'' = Inr stamps"
    and tc: "tc = ''full_text'' \<or> tc = ''comment_body''"
  shows "\<exists>d1 d2 d3 d4.
      keyword_analysis df tc MERGER_KEYWORDS ''merger'' = Inr d1 \<and>
      keyword_analysis d1 tc LAYOFF_KEYWORDS ''layoff'' = Inr d2 \<and>
      keyword_analysis d2 tc REASSIGNMENT_KEYWORDS ''reassign'' = Inr d3 \<and>
      keyword_analysis d3 tc REDUCED_WORKLOAD_KEYWORDS ''reduced_work'' = Inr d4 \<and>
      plot_sentiment_over_time d4 = Inr () \<and>
      plot_keyword_frequency d4 MERGER_KEYWORDS ''merger'' = Inr () \<and>
      join_column d4 tc = Inr (join '' '' texts) \<and>
      mean_column d4 ''sentiment'' =
        Inr (if sents = [] then None else Some (sum_list sents / real (length sents))) \<and>
      nrows d4 = length texts \<and>
      getitem d4 (column_name ''merger'' ''score'') =
        Inr (map (\<lambda>t. IntCell (spec_category_score MERGER_KEYWORDS t)) texts) \<and>
      getitem d4 (column_name ''layoff'' ''score'') =
        Inr (map (\<lambda>t. IntCell (spec_category_score LAYOFF_KEYWORDS t)) texts) \<and>
      getitem d4 (column_name ''reassign'' ''score'') =
        Inr (map (\<lambda>t. IntCell (spec_category_score REASSIGNMENT_KEYWORDS t)) texts) \<and>
      getitem d4 (column_name ''reduced_work'' ''score'') =
        Inr (map (\<lambda>t. IntCell (spec_category_score REDUCED_WORKLOAD_KEYWORDS t)) texts)"
proof -
  have free: "(\<forall>k. c \<noteq> column_name ''merger'' k) \<and> (\<forall>k. c \<noteq> column_name ''layoff'' k) \<and>
        (\<forall>k. c \<noteq> column_name ''reassign'' k) \<and> (\<forall>k. c \<noteq> column_name ''reduced_work'' k)"
    if "c = ''full_text'' \<or> c = ''comment_body'' \<or> c = ''sentiment'' \<or> c = ''created''" for c
    using that by (auto simp: column_name_def)
  have ftc: "(\<forall>k. tc \<noteq> column_name ''merger'' k) \<and> (\<forall>k. tc \<noteq> column_name ''layoff'' k) \<and>
        (\<forall>k. tc \<noteq> column_name ''reassign'' k) \<and> (\<forall>k. tc \<noteq> column_name ''reduced_work'' k)"
    using tc by (intro free) auto
  from annotate_all[OF fr tx] ftc obtain d1 d2 d3 d4 where
    a: "keyword_analysis df tc MERGER_KEYWORDS ''merger'' = Inr d1"
      "keyword_analysis d1 tc LAYOFF_KEYWORDS ''layoff'' = Inr d2"
      "keyword_analysis d2 tc REASSIGNMENT_KEYWORDS ''reassign'' = Inr d3"
      "keyword_analysis d3 tc REDUCED_WORKLOAD_KEYWORDS ''reduced_work'' = Inr d4"
    and n: "nrows d4 = nrows df"
    and keep: "\<forall>c. (\<forall>k. c \<noteq> column_name ''merger'' k) \<and> (\<forall>k. c \<noteq> column_name ''layoff'' k) \<and>
           (\<forall>k. c \<noteq> column_name ''reassign'' k) \<and> (\<forall>k. c \<noteq> column_name ''reduced_work'' k) \<longrightarrow>
           getitem d4 c = getitem df c"
    and scores:
      "getitem d4 (column_name ''merger'' ''score'') =
        Inr (map (\<lambda>t. IntCell (spec_category_score MERGER_KEYWORDS t)) texts)"
      "getitem d4 (column_name ''layoff'' ''score'') =
        Inr (map (\<lambda>t. IntCell (spec_category_score LAYOFF_KEYWORDS t)) texts)"
      "getitem d4 (column_name ''reassign'' ''score'') =
        Inr (map (\<lambda>t. IntCell (spec_category_score REASSIGNMENT_KEYWORDS t)) texts)"
      "getitem d4 (column_name ''reduced_work'' ''score'') =
        Inr (map (\<lambda>t. IntCell (spec_category_score REDUCED_WORKLOAD_KEYWORDS t)) texts)"
    and flags: "\<forall>k\<in>set MERGER_KEYWORDS. \<exists>fl. getitem d4 (column_name ''merger'' k) = Inr (map IntCell fl)"
    by blast
  have tx4: "getitem d4 tc = Inr (map StrCell texts)" using keep ftc tx by simp
  have se4: "getitem d4 ''sentiment'' = Inr (map FloatCell sents)"
    using keep free[of "''sentiment''"] se by simp
  have cr4: "getitem d4 ''created'' = Inr stamps"
    using keep free[of "''created''"] cr by simp
  have 1: "plot_sentiment_over_time d4 = Inr ()"
    by (simp add: plot_sentiment_over_time_def se4 cr4)
  have 2: "plot_keyword_frequency d4 MERGER_KEYWORDS ''merger'' = Inr ()"
    using flags by (intro plot_keyword_frequency_ok) blast
  have 3: "join_column d4 tc = Inr (join '' '' texts)"
    by (simp add: join_column_def tx4 str_items_StrCell)
  have 4: "mean_column d4 ''sentiment'' =
      Inr (if sents = [] then None else Some (sum_list sents / real (length sents)))"
    by (simp add: mean_column_def se4 sum_cells_FloatCell)
  have 5: "nrows d4 = length texts" using n getitem_frame_ok[OF fr tx] by simp
  from a 1 2 3 4 5 scores show ?thesis by blast
qed

lemma posts_prepared:
  assumes "posts \<noteq> []"
  shows "\<exists>F S stamps.
      add_full_text (DataFrame_posts posts) = Inr F \<and>
      sentiment_analysis pol F ''full_text'' = Inr S \<and> frame_ok S \<and>
      getitem S ''full_text'' = Inr (map StrCell (map (\<lambda>q. title q @ '' '' @ body q) posts)) \<and>
      getitem S ''sentiment'' =
        Inr (map FloatCell (map (\<lambda>q. pol (title q @ '' '' @ body q)) posts)) \<and>
      getitem S ''created'' = Inr stamps"
proof -
  let ?texts = "map (\<lambda>q. title q @ '' '' @ body q) posts"
  let ?F = "setitem (DataFrame_posts posts) ''full_text'' (map (\<lambda>q. StrCell (title q @ '' '' @ body q)) posts)"
  let ?S = "setitem ?F ''sentiment'' (map (\<lambda>t. FloatCell (pol t)) ?texts)"
  have n0: "nrows (DataFrame_posts posts) = length posts"
    using assms by (simp add: DataFrame_posts_def)
  have fF: "frame_ok ?F"
    by (rule frame_ok_setitem) (simp_all add: frame_ok_DataFrame_posts n0)
  have tF: "getitem ?F ''full_text'' = Inr (map StrCell ?texts)"
    by (simp add: getitem_setitem comp_def)
  have s: "sentiment_analysis pol ?F ''full_text'' = Inr ?S"
    by (simp only: sentiment_analysis_def tF apply_sentiment_cells sum.case)
  have fS: "frame_ok ?S"
    by (rule frame_ok_setitem[OF fF]) (simp add: nrows_setitem n0)
  have tS: "getitem ?S ''full_text'' = Inr (map StrCell ?texts)"
    using tF by (simp add: getitem_setitem)
  have sS: "getitem ?S ''sentiment'' =
      Inr (map FloatCell (map (\<lambda>q. pol (title q @ '' '' @ body q)) posts))"
    by (simp add: getitem_setitem comp_def)
  have "getitem (DataFrame_posts posts) ''created'' = Inr (map (\<lambda>p. IntCell (created p)) posts)"
    using assms by (simp add: getitem_def DataFrame_posts_def)
  then have cS: "getitem ?S ''created'' = Inr (map (\<lambda>p. IntCell (created p)) posts)"
    by (simp add: getitem_setitem)
  from add_full_text_posts[OF assms] s fS tS sS cS show ?thesis by blast
qed

lemma comments_prepared:
  assumes "comments \<noteq> []"
  shows "\<exists>S stamps.
      sentiment_analysis pol (DataFrame_comments comments) ''comment_body'' = Inr S \<and> frame_ok S \<and>
      getitem S ''comment_body'' = Inr (map StrCell (map comment_body comments)) \<and>
      getitem S ''sentiment'' = Inr (map FloatCell (map (\<lambda>c. pol (comment_body c)) comments)) \<and>
      getitem S ''created'' = Inr stamps"
proof -
  let ?C = "DataFrame_comments comments"
  let ?texts = "map comment_body comments"
  let ?S = "setitem ?C ''sentiment'' (map (\<lambda>t. FloatCell (pol t)) ?texts)"
  have n0: "nrows ?C = length comments"
    using assms by (simp add: DataFrame_comments_def)
  have fC: "frame_ok ?C" by (simp add: frame_ok_def DataFrame_comments_def)
  have tC: "getitem ?C ''comment_body'' = Inr (map StrCell ?texts)"
    using assms by (simp add: getitem_def DataFrame_comments_def comp_def)
  have s: "sentiment_analysis pol ?C ''comment_body'' = Inr ?S"
    by (simp only: sentiment_analysis_def tC apply_sentiment_cells sum.case)
  have fS: "frame_ok ?S"
    by (rule frame_ok_setitem[OF fC]) (simp add: n0)
  have tS: "getitem ?S ''comment_body'' = Inr (map StrCell ?texts)"
    using tC by (simp add: getitem_setitem)
  have sS: "getitem ?S ''sentiment'' = Inr (map FloatCell (map (\<lambda>c. pol (comment_body c)) comments))"
    by (simp add: getitem_setitem comp_def)
  have "getitem ?C ''created'' = Inr (map (\<lambda>c. IntCell (comment_created c)) comments)"
    using assms by (simp add: getitem_def DataFrame_comments_def)
  then have cS: "getitem ?S ''created'' = Inr (map (\<lambda>c. IntCell (comment_created c)) comments)"
    by (simp add: getitem_setitem)
  from s fS tS sS cS show ?thesis by blast
qed

lemma analyze_company_run:
  assumes "posts \<noteq> []" and "comments \<noteq> []"
  shows "\<exists>d4 e4 m l ra rw.
      combined_signal d4 e4 ''merger'' = Inr m \<and>
      combined_signal d4 e4 ''layoff'' = Inr l \<and>
      combined_signal d4 e4 ''reassign'' = Inr ra \<and>
      combined_signal d4 e4 ''reduced_work'' = Inr rw \<and>
      nrows d4 = length posts \<and> nrows e4 = length comments \<and>
      getitem d4 (column_name ''merger'' ''score'') =
        Inr (map (\<lambda>t. IntCell (spec_category_score MERGER_KEYWORDS t))
               (map (\<lambda>q. title q @ '' '' @ body q) posts)) \<and>
      getitem d4 (column_name ''layoff'' ''score'') =
        Inr (map (\<lambda>t. IntCell (spec_category_score LAYOFF_KEYWORDS t))
               (map (\<lambda>q. title q @ '' '' @ body q) posts)) \<and>
      getitem d4 (column_name ''reassign'' ''score'') =
        Inr (map (\<lambda>t. IntCell (spec_category_score REASSIGNMENT_KEYWORDS t))
               (map (\<lambda>q. title q @ '' '' @ body q) posts)) \<and>
      getitem d4 (column_name ''reduced_work'' ''score'') =
        Inr (map (\<lambda>t. IntCell (spec_category_score REDUCED_WORKLOAD_KEYWORDS t))
               (map (\<lambda>q. title q @ '' '' @ body q) posts)) \<and>
      getitem e4 (column_name ''merger'' ''score'') =
        Inr (map (\<lambda>t. IntCell (spec_category_score MERGER_KEYWORDS t))
               (map comment_body comments)) \<and>
      getitem e4 (column_name ''layoff'' ''score'') =
        Inr (map (\<lambda>t. IntCell (spec_category_score LAYOFF_KEYWORDS t))
               (map comment_body comments)) \<and>
      getitem e4 (column_name ''reassign'' ''score'') =
        Inr (map (\<lambda>t. IntCell (spec_category_score REASSIGNMENT_KEYWORDS t))
               (map comment_body comments)) \<and>
      getitem e4 (column_name ''reduced_work'' ''score'') =
        Inr (map (\<lambda>t. IntCell (spec_category_score REDUCED_WORKLOAD_KEYWORDS t))
               (map comment_body comments)) \<and>
      analyze_company pol posts comments =
        Inr \<lparr>merger_signal = m, layoff_signal = l, reassign_signal = ra, reduced_work_signal = rw,
             company_counts =
               most_common 10 (Counter (extract_companies
                 (join '' '' (map (\<lambda>q. title q @ '' '' @ body q) posts) @ '' '' @
                  join '' '' (map comment_body comments)))),
             posts_sentiment =
               Some (sum_list (map (\<lambda>q. pol (title q @ '' '' @ body q)) posts) / real (length posts)),
             comments_sentiment =
               Some (sum_list (map (\<lambda>c. pol (comment_body c)) comments) / real (length comments)),
             posts_csv = d4, comments_csv = e4\<rparr>"
proof -
  let ?pt = "map (\<lambda>q. title q @ '' '' @ body q) posts"
  let ?ct = "map comment_body comments"
  from posts_prepared[OF assms(1), of pol] obtain F S stamps where
    p0: "add_full_text (DataFrame_posts posts) = Inr F"
      "sentiment_analysis pol F ''full_text'' = Inr S"
    and pS: "frame_ok S" "getitem S ''full_text'' = Inr (map StrCell ?pt)"
      "getitem S ''sentiment'' = Inr (map FloatCell (map (\<lambda>q. pol (title q @ '' '' @ body q)) posts))"
      "getitem S ''created'' = Inr stamps"
    by blast
  from comments_prepared[OF assms(2), of pol] obtain S' stamps' where
    c0: "sentiment_analysis pol (DataFrame_comments comments) ''comment_body'' = Inr S'"
    and cS: "frame_ok S'" "getitem S' ''comment_body'' = Inr (map StrCell ?ct)"
      "getitem S' ''sentiment'' = Inr (map FloatCell (map (\<lambda>c. pol (comment_body c)) comments))"
      "getitem S' ''created'' = Inr stamps'"
    by blast
  from annotated_frame_ready[OF pS] obtain d1 d2 d3 d4 where
    p: "keyword_analysis S ''full_text'' MERGER_KEYWORDS ''merger'' = Inr d1"
      "keyword_analysis d1 ''full_text'' LAYOFF_KEYWORDS ''layoff'' = Inr d2"
      "keyword_analysis d2 ''full_text'' REASSIGNMENT_KEYWORDS ''reassign'' = Inr d3"
      "keyword_analysis d3 ''full_text'' REDUCED_WORKLOAD_KEYWORDS ''reduced_work'' = Inr d4"
      "plot_sentiment_over_time d4 = Inr ()"
      "plot_keyword_frequency d4 MERGER_KEYWORDS ''merger'' = Inr ()"
      "join_column d4 ''full_text'' = Inr (join '' '' ?pt)"
      "mean_column d4 ''sentiment'' =
        Inr (if map (\<lambda>q. pol (title q @ '' '' @ body q)) posts = [] then None
             else Some (sum_list (map (\<lambda>q. pol (title q @ '' '' @ body q)) posts) /
                        real (length (map (\<lambda>q. pol (title q @ '' '' @ body q)) posts))))"
    and pn: "nrows d4 = length ?pt"
    and ps: "getitem d4 (column_name ''merger'' ''score'') =
        Inr (map (\<lambda>t. IntCell (spec_category_score MERGER_KEYWORDS t)) ?pt)"
      "getitem d4 (column_name ''layoff'' ''score'') =
        Inr (map (\<lambda>t. IntCell (spec_category_score LAYOFF_KEYWORDS t)) ?pt)"
      "getitem d4 (column_name ''reassign'' ''score'') =
        Inr (map (\<lambda>t. IntCell (spec_category_score REASSIGNMENT_KEYWORDS t)) ?pt)"
      "getitem d4 (column_name ''reduced_work'' ''score'') =
        Inr (map (\<lambda>t. IntCell (spec_category_score REDUCED_WORKLOAD_KEYWORDS t)) ?pt)"
    by blast
  from annotated_frame_ready[OF cS] obtain e1 e2 e3 e4 where
    c: "keyword_analysis S' ''comment_body'' MERGER_KEYWORDS ''merger'' = Inr e1"
      "keyword_analysis e1 ''comment_body'' LAYOFF_KEYWORDS ''layoff'' = Inr e2"
      "keyword_analysis e2 ''comment_body'' REASSIGNMENT_KEYWORDS ''reassign'' = Inr e3"
      "keyword_analysis e3 ''comment_body'' REDUCED_WORKLOAD_KEYWORDS ''reduced_work'' = Inr e4"
      "plot_sentiment_over_time e4 = Inr ()"
      "plot_keyword_frequency e4 MERGER_KEYWORDS ''merger'' = Inr ()"
      "join_column e4 ''comment_body'' = Inr (join '' '' ?ct)"
      "mean_column e4 ''sentiment'' =
        Inr (if map (\<lambda>c. pol (comment_body c)) comments = [] then None
             else Some (sum_list (map (\<lambda>c. pol (comment_body c)) comments) /
                        real (length (map (\<lambda>c. pol (comment_body c)) comments))))"
    and cn: "nrows e4 = length ?ct"
    and cs: "getitem e4 (column_name ''merger'' ''score'') =
        Inr (map (\<lambda>t. IntCell (spec_category_score MERGER_KEYWORDS t)) ?ct)"
      "getitem e4 (column_name ''layoff'' ''score'') =
        Inr (map (\<lambda>t. IntCell (spec_category_score LAYOFF_KEYWORDS t)) ?ct)"
      "getitem e4 (column_name ''reassign'' ''score'') =
        Inr (map (\<lambda>t. IntCell (spec_category_score REASSIGNMENT_KEYWORDS t)) ?ct)"
      "getitem e4 (column_name ''reduced_work'' ''score'') =
        Inr (map (\<lambda>t. IntCell (spec_category_score REDUCED_WORKLOAD_KEYWORDS t)) ?ct)"
    by blast
  have sig: "\<exists>r. combined_signal d4 e4 q = Inr r"
    if "(\<exists>f. getitem d4 (column_name q ''score'') = Inr (map (\<lambda>t. IntCell (f t)) ?pt))"
       "(\<exists>f. getitem e4 (column_name q ''score'') = Inr (map (\<lambda>t. IntCell (f t)) ?ct))" for q
  proof -
    from that(1) obtain a where "calculate_signal_strength d4 q = Inr a"
      using signal_defined by blast
    moreover from that(2) obtain b where "calculate_signal_strength e4 q = Inr b"
      using signal_defined by blast
    ultimately show ?thesis by (simp add: combined_signal_def and_then_def)
  qed
  from sig[of "''merger''"] ps(1) cs(1) obtain m where m: "combined_signal d4 e4 ''merger'' = Inr m"
    by blast
  from sig[of "''layoff''"] ps(2) cs(2) obtain l where l: "combined_signal d4 e4 ''layoff'' = Inr l"
    by blast
  from sig[of "''reassign''"] ps(3) cs(3) obtain ra where ra: "combined_signal d4 e4 ''reassign'' = Inr ra"
    by blast
  from sig[of "''reduced_work''"] ps(4) cs(4) obtain rw where rw: "combined_signal d4 e4 ''reduced_work'' = Inr rw"
    by blast
  have run: "analyze_company pol posts comments =
        Inr \<lparr>merger_signal = m, layoff_signal = l, reassign_signal = ra, reduced_work_signal = rw,
             company_counts =
               most_common 10 (Counter (extract_companies (join '' '' ?pt @ '' '' @ join '' '' ?ct))),
             posts_sentiment =
               Some (sum_list (map (\<lambda>q. pol (title q @ '' '' @ body q)) posts) / real (length posts)),
             comments_sentiment =
               Some (sum_list (map (\<lambda>c. pol (comment_body c)) comments) / real (length comments)),
             posts_csv = d4, comments_csv = e4\<rparr>"
    using assms by (simp add: analyze_company_def and_then_def Let_def p0 c0 p c m l ra rw)
  have pn': "nrows d4 = length posts" and cn': "nrows e4 = length comments"
    using pn cn by simp_all
  from m l ra rw pn' cn' ps cs run show ?thesis by blast
qed

lemma analyze_company_total:
  assumes "posts \<noteq> []" and "comments \<noteq> []"
  shows "\<exists>r. analyze_company pol posts comments = Inr r"
  using analyze_company_run[OF assms, of pol] by blast

text \<open>
  A run without posts stops at the first read of the post frame, and a run on posts
  without any comment at the first read of the comment frame.
\<close>

lemma no_posts_raises: "analyze_company pol [] comments = Inl (KeyError ''title'')"
  by (simp add: analyze_company_def and_then_def add_full_text_def DataFrame_posts_def getitem_def)

lemma no_comments_raises:
  assumes "posts \<noteq> []"
  shows "analyze_company pol posts [] = Inl (KeyError ''comment_body'')"
proof -
  from posts_prepared[OF assms, of pol] obtain F S where
    "add_full_text (DataFrame_posts posts) = Inr F" "sentiment_analysis pol F ''full_text'' = Inr S"
    by blast
  moreover have "sentiment_analysis pol (DataFrame_comments []) ''comment_body'' =
      Inl (KeyError ''comment_body'')"
    by (simp add: sentiment_analysis_def DataFrame_comments_def getitem_def)
  ultimately show ?thesis
    by (simp add: analyze_company_def and_then_def)
qed

lemma run_needs_records:
  assumes "analyze_company pol posts comments = Inr r"
  shows "posts \<noteq> []" and "comments \<noteq> []"
proof -
  show p: "posts \<noteq> []" using assms no_posts_raises[of pol comments] by auto
  show "comments \<noteq> []" using assms no_comments_raises[OF p, of pol] by auto
qed

section \<open>Combined signals\<close>

lemma and_then_Inr: "and_then m f = Inr y \<longleftrightarrow> (\<exists>x. m = Inr x \<and> f x = Inr y)"
  by (cases m) (auto simp: and_then_def)

lemma analyze_company_signals:
  assumes "analyze_company pol posts comments = Inr r"
  shows "combined_signal (posts_csv r) (comments_csv r) ''merger'' = Inr (merger_signal r)"
    and "combined_signal (posts_csv r) (comments_csv r) ''layoff'' = Inr (layoff_signal r)"
    and "combined_signal (posts_csv r) (comments_csv r) ''reassign'' = Inr (reassign_signal r)"
    and "combined_signal (posts_csv r) (comments_csv r) ''reduced_work'' = Inr (reduced_work_signal r)"
  using assms by (auto simp: analyze_company_def and_then_Inr Let_def)

lemma combined_signal_sum:
  "combined_signal pdf cdf p = Inr s \<Longrightarrow>
     \<exists>a b. calculate_signal_strength pdf p = Inr a \<and> calculate_signal_strength cdf p = Inr b \<and>
           s = a + b"
  by (auto simp: combined_signal_def and_then_Inr)

lemma category_signal_of_run:
  assumes n: "nrows d = length pt" "nrows e = length ct"
    and sc: "getitem d (column_name q ''score'') = Inr (map (\<lambda>t. IntCell (spec_category_score kws t)) pt)"
      "getitem e (column_name q ''score'') = Inr (map (\<lambda>t. IntCell (spec_category_score kws t)) ct)"
    and bd: "length kws \<le> 16" "length pt < 2 ^ 59" "length ct < 2 ^ 59"
    and cmb: "combined_signal d e q = Inr s"
  shows "calculate_signal_strength d q = Inr (spec_signal_strength kws pt) \<and>
         calculate_signal_strength e q = Inr (spec_signal_strength kws ct) \<and>
         s = spec_signal_strength kws pt + spec_signal_strength kws ct"
proof -
  have a: "calculate_signal_strength d q = Inr (spec_signal_strength kws pt)"
    by (rule signal_of_scores[OF n(1) sc(1) spec_scores_in_int64[OF bd(1,2)]])
  have b: "calculate_signal_strength e q = Inr (spec_signal_strength kws ct)"
    by (rule signal_of_scores[OF n(2) sc(2) spec_scores_in_int64[OF bd(1,3)]])
  from cmb a b show ?thesis by (simp add: combined_signal_def and_then_def)
qed

text \<open>
  Claim C8. A run of \<^verbatim>\<open>analyze_company\<close> on at least one post and at least one comment
  produces its report. Whenever a run produces its report, each of the four signals in it
  is the signal strength of the annotated post frame for the category plus the signal
  strength of the annotated comment frame for the category, the two frames being the ones
  the run writes out. For a run on fewer than \<open>2 ^ 59\<close> posts and comments (the sums of the
  scores then stay in the int64 range) with ASCII titles and bodies, the two summands are
  the specification's signal strength of the category on the title-plus-body texts of the
  posts and on the bodies of the comments, and the reported signal is their plain sum.
\<close>

theorem combined_signal_is_sum:
  "(posts \<noteq> [] \<and> comments \<noteq> [] \<longrightarrow> (\<exists>r. analyze_company pol posts comments = Inr r)) \<and>
   (analyze_company pol posts comments = Inr r \<longrightarrow>
      (\<exists>a b. calculate_signal_strength (posts_csv r) ''merger'' = Inr a \<and>
         calculate_signal_strength (comments_csv r) ''merger'' = Inr b \<and>
         merger_signal r = a + b) \<and>
      (\<exists>a b. calculate_signal_strength (posts_csv r) ''layoff'' = Inr a \<and>
         calculate_signal_strength (comments_csv r) ''layoff'' = Inr b \<and>
         layoff_signal r = a + b) \<and>
      (\<exists>a b. calculate_signal_strength (posts_csv r) ''reassign'' = Inr a \<and>
         calculate_signal_strength (comments_csv r) ''reassign'' = Inr b \<and>
         reassign_signal r = a + b) \<and>
      (\<exists>a b. calculate_signal_strength (posts_csv r) ''reduced_work'' = Inr a \<and>
         calculate_signal_strength (comments_csv r) ''reduced_work'' = Inr b \<and>
         reduced_work_signal r = a + b)) \<and>
   (analyze_company pol posts comments = Inr r \<and>
    length posts < 2 ^ 59 \<and> length comments < 2 ^ 59 \<and>
    (\<forall>q\<in>set posts. ascii_text (title q) \<and> ascii_text (body q)) \<and>
    (\<forall>c\<in>set comments. ascii_text (comment_body c)) \<longrightarrow>
      (calculate_signal_strength (posts_csv r) ''merger'' =
         Inr (spec_signal_strength MERGER_KEYWORDS (map (\<lambda>q. title q @ '' '' @ body q) posts)) \<and>
       calculate_signal_strength (comments_csv r) ''merger'' =
         Inr (spec_signal_strength MERGER_KEYWORDS (map comment_body comments)) \<and>
       merger_signal r =
         spec_signal_strength MERGER_KEYWORDS (map (\<lambda>q. title q @ '' '' @ body q) posts) +
         spec_signal_strength MERGER_KEYWORDS (map comment_body comments)) \<and>
      (calculate_signal_strength (posts_csv r) ''layoff'' =
         Inr (spec_signal_strength LAYOFF_KEYWORDS (map (\<lambda>q. title q @ '' '' @ body q) posts)) \<and>
       calculate_signal_strength (comments_csv r) ''layoff'' =
         Inr (spec_signal_strength LAYOFF_KEYWORDS (map comment_body comments)) \<and>
       layoff_signal r =
         spec_signal_strength LAYOFF_KEYWORDS (map (\<lambda>q. title q @ '' '' @ body q) posts) +
         spec_signal_strength LAYOFF_KEYWORDS (map comment_body comments)) \<and>
      (calculate_signal_strength (posts_csv r) ''reassign'' =
         Inr (spec_signal_strength REASSIGNMENT_KEYWORDS (map (\<lambda>q. title q @ '' '' @ body q) posts)) \<and>
       calculate_signal_strength (comments_csv r) ''reassign'' =
         Inr (spec_signal_strength REASSIGNMENT_KEYWORDS (map comment_body comments)) \<and>
       reassign_signal r =
         spec_signal_strength REASSIGNMENT_KEYWORDS (map (\<lambda>q. title q @ '' '' @ body q) posts) +
         spec_signal_strength REASSIGNMENT_KEYWORDS (map comment_body comments)) \<and>
      (calculate_signal_strength (posts_csv r) ''reduced_work'' =
         Inr (spec_signal_strength REDUCED_WORKLOAD_KEYWORDS (map (\<lambda>q. title q @ '' '' @ body q) posts)) \<and>
       calculate_signal_strength (comments_csv r) ''reduced_work'' =
         Inr (spec_signal_strength REDUCED_WORKLOAD_KEYWORDS (map comment_body comments)) \<and>
       reduced_work_signal r =
         spec_signal_strength REDUCED_WORKLOAD_KEYWORDS (map (\<lambda>q. title q @ '' '' @ body q) posts) +
         spec_signal_strength REDUCED_WORKLOAD_KEYWORDS (map comment_body comments)))"
proof -
  have total: "posts \<noteq> [] \<and> comments \<noteq> [] \<longrightarrow> (\<exists>r. analyze_company pol posts comments = Inr r)"
    using analyze_company_total by blast
  have rel: "(\<exists>a b. calculate_signal_strength (posts_csv r) ''merger'' = Inr a \<and>
         calculate_signal_strength (comments_csv r) ''merger'' = Inr b \<and>
         merger_signal r = a + b) \<and>
      (\<exists>a b. calculate_signal_strength (posts_csv r) ''layoff'' = Inr a \<and>
         calculate_signal_strength (comments_csv r) ''layoff'' = Inr b \<and>
         layoff_signal r = a + b) \<and>
      (\<exists>a b. calculate_signal_strength (posts_csv r) ''reassign'' = Inr a \<and>
         calculate_signal_strength (comments_csv r) ''reassign'' = Inr b \<and>
         reassign_signal r = a + b) \<and>
      (\<exists>a b. calculate_signal_strength (posts_csv r) ''reduced_work'' = Inr a \<and>
         calculate_signal_strength (comments_csv r) ''reduced_work'' = Inr b \<and>
         reduced_work_signal r = a + b)"
    if run: "analyze_company pol posts comments = Inr r"
    using analyze_company_signals[OF run] combined_signal_sum by (intro conjI) blast+
  have exact: "(calculate_signal_strength (posts_csv r) ''merger'' =
         Inr (spec_signal_strength MERGER_KEYWORDS (map (\<lambda>q. title q @ '' '' @ body q) posts)) \<and>
       calculate_signal_strength (comments_csv r) ''merger'' =
         Inr (spec_signal_strength MERGER_KEYWORDS (map comment_body comments)) \<and>
       merger_signal r =
         spec_signal_strength MERGER_KEYWORDS (map (\<lambda>q. title q @ '' '' @ body q) posts) +
         spec_signal_strength MERGER_KEYWORDS (map comment_body comments)) \<and>
      (calculate_signal_strength (posts_csv r) ''layoff'' =
         Inr (spec_signal_strength LAYOFF_KEYWORDS (map (\<lambda>q. title q @ '' '' @ body q) posts)) \<and>
       calculate_signal_strength (comments_csv r) ''layoff'' =
         Inr (spec_signal_strength LAYOFF_KEYWORDS (map comment_body comments)) \<and>
       layoff_signal r =
         spec_signal_strength LAYOFF_KEYWORDS (map (\<lambda>q. title q @ '' '' @ body q) posts) +
         spec_signal_strength LAYOFF_KEYWORDS (map comment_body comments)) \<and>
      (calculate_signal_strength (posts_csv r) ''reassign'' =
         Inr (spec_signal_strength REASSIGNMENT_KEYWORDS (map (\<lambda>q. title q @ '' '' @ body q) posts)) \<and>
       calculate_signal_strength (comments_csv r) ''reassign'' =
         Inr (spec_signal_strength REASSIGNMENT_KEYWORDS (map comment_body comments)) \<and>
       reassign_signal r =
         spec_signal_strength REASSIGNMENT_KEYWORDS (map (\<lambda>q. title q @ '' '' @ body q) posts) +
         spec_signal_strength REASSIGNMENT_KEYWORDS (map comment_body comments)) \<and>
      (calculate_signal_strength (posts_csv r) ''reduced_work'' =
         Inr (spec_signal_strength REDUCED_WORKLOAD_KEYWORDS (map (\<lambda>q. title q @ '' '' @ body q) posts)) \<and>
       calculate_signal_strength (comments_csv r) ''reduced_work'' =
         Inr (spec_signal_strength REDUCED_WORKLOAD_KEYWORDS (map comment_body comments)) \<and>
       reduced_work_signal r =
         spec_signal_strength REDUCED_WORKLOAD_KEYWORDS (map (\<lambda>q. title q @ '' '' @ body q) posts) +
         spec_signal_strength REDUCED_WORKLOAD_KEYWORDS (map comment_body comments))"
    if run: "analyze_company pol posts comments = Inr r"
      and bp: "length posts < 2 ^ 59" and bc: "length comments < 2 ^ 59"
  proof -
    let ?pt = "map (\<lambda>q. title q @ '' '' @ body q) posts"
    let ?ct = "map comment_body comments"
    note ne = run_needs_records[OF run]
    from analyze_company_run[OF ne, of pol] obtain d4 e4 m l ra rw where
      cmb: "combined_signal d4 e4 ''merger'' = Inr m" "combined_signal d4 e4 ''layoff'' = Inr l"
        "combined_signal d4 e4 ''reassign'' = Inr ra" "combined_signal d4 e4 ''reduced_work'' = Inr rw"
      and n: "nrows d4 = length posts" "nrows e4 = length comments"
      and ps: "getitem d4 (column_name ''merger'' ''score'') =
          Inr (map (\<lambda>t. IntCell (spec_category_score MERGER_KEYWORDS t)) ?pt)"
        "getitem d4 (column_name ''layoff'' ''score'') =
          Inr (map (\<lambda>t. IntCell (spec_category_score LAYOFF_KEYWORDS t)) ?pt)"
        "getitem d4 (column_name ''reassign'' ''score'') =
          Inr (map (\<lambda>t. IntCell (spec_category_score REASSIGNMENT_KEYWORDS t)) ?pt)"
        "getitem d4 (column_name ''reduced_work'' ''score'') =
          Inr (map (\<lambda>t. IntCell (spec_category_score REDUCED_WORKLOAD_KEYWORDS t)) ?pt)"
      and cs: "getitem e4 (column_name ''merger'' ''score'') =
          Inr (map (\<lambda>t. IntCell (spec_category_score MERGER_KEYWORDS t)) ?ct)"
        "getitem e4 (column_name ''layoff'' ''score'') =
          Inr (map (\<lambda>t. IntCell (spec_category_score LAYOFF_KEYWORDS t)) ?ct)"
        "getitem e4 (column_name ''reassign'' ''score'') =
          Inr (map (\<lambda>t. IntCell (spec_category_score REASSIGNMENT_KEYWORDS t)) ?ct)"
        "getitem e4 (column_name ''reduced_work'' ''score'') =
          Inr (map (\<lambda>t. IntCell (spec_category_score REDUCED_WORKLOAD_KEYWORDS t)) ?ct)"
      and res: "analyze_company pol posts comments =
        Inr \<lparr>merger_signal = m, layoff_signal = l, reassign_signal = ra, reduced_work_signal = rw,
             company_counts =
               most_common 10 (Counter (extract_companies (join '' '' ?pt @ '' '' @ join '' '' ?ct))),
             posts_sentiment =
               Some (sum_list (map (\<lambda>q. pol (title q @ '' '' @ body q)) posts) / real (length posts)),
             comments_sentiment =
               Some (sum_list (map (\<lambda>c. pol (comment_body c)) comments) / real (length comments)),
             posts_csv = d4, comments_csv = e4\<rparr>"
      by blast
    from run res have r: "posts_csv r = d4" "comments_csv r = e4" "merger_signal r = m"
      "layoff_signal r = l" "reassign_signal r = ra" "reduced_work_signal r = rw"
      by auto
    have np: "nrows d4 = length ?pt" and nc: "nrows e4 = length ?ct" using n by simp_all
    have bp': "length ?pt < 2 ^ 59" and bc': "length ?ct < 2 ^ 59" using bp bc by simp_all
    note 1 = category_signal_of_run[OF np nc ps(1) cs(1) lexicon_lengths(1) bp' bc' cmb(1)]
    note 2 = category_signal_of_run[OF np nc ps(2) cs(2) lexicon_lengths(2) bp' bc' cmb(2)]
    note 3 = category_signal_of_run[OF np nc ps(3) cs(3) lexicon_lengths(3) bp' bc' cmb(3)]
    note 4 = category_signal_of_run[OF np nc ps(4) cs(4) lexicon_lengths(4) bp' bc' cmb(4)]
    from 1 2 3 4 show ?thesis unfolding r by (intro conjI) (elim conjE, assumption)+
  qed
  from total rel exact show ?thesis by blast
qed

theorem combined_signal_is_sum_witness:
  "\<exists>r. analyze_company (\<lambda>s. 0)
         [\<lparr>title = ''Merger'', score = 3, ident = ''p'', url = ''u'', comms_num = 1,
           created = 1, body = ''''\<rparr>]
         [\<lparr>post_id = ''p'', comment_id = ''c'', comment_parent_id = ''p'',
           comment_body = ''buyout'', comment_score = 1, comment_created = 2\<rparr>] = Inr r \<and>
       calculate_signal_strength (posts_csv r) ''merger'' = Inr 100 \<and>
       calculate_signal_strength (comments_csv r) ''merger'' = Inr 100 \<and>
       merger_signal r = 100 + 100 \<and> layoff_signal r = 0"
proof -
  let ?posts = "[\<lparr>title = ''Merger'', score = 3, ident = ''p'', url = ''u'', comms_num = 1,
           created = 1, body = ''''\<rparr>]"
  let ?comments = "[\<lparr>post_id = ''p'', comment_id = ''c'', comment_parent_id = ''p'',
           comment_body = ''buyout'', comment_score = 1, comment_created = 2\<rparr>]"
  let ?run = "analyze_company (\<lambda>s. 0) ?posts ?comments"
  have "case ?run of
          Inl e \<Rightarrow> False
        | Inr r \<Rightarrow> calculate_signal_strength (posts_csv r) ''merger'' = Inr 100 \<and>
                  calculate_signal_strength (comments_csv r) ''merger'' = Inr 100"
    by code_simp
  then obtain r where run: "?run = Inr r"
    and a: "calculate_signal_strength (posts_csv r) ''merger'' = Inr 100"
    and b: "calculate_signal_strength (comments_csv r) ''merger'' = Inr 100"
    by (cases ?run) auto
  have bd: "length ?posts < 2 ^ 59" "length ?comments < 2 ^ 59" by simp_all
  have asc: "\<forall>q\<in>set ?posts. ascii_text (title q) \<and> ascii_text (body q)"
    "\<forall>c\<in>set ?comments. ascii_text (comment_body c)"
    by (simp_all add: ascii_text_def is_ascii_def)
  note T = combined_signal_is_sum[of ?posts ?comments "\<lambda>s. 0" r, THEN conjunct2, THEN conjunct2,
      THEN mp, OF conjI[OF run conjI[OF bd(1) conjI[OF bd(2) conjI[OF asc]]]]]
  have s1: "spec_signal_strength MERGER_KEYWORDS (map (\<lambda>q. title q @ '' '' @ body q) ?posts) = 100"
    by code_simp
  have s2: "spec_signal_strength MERGER_KEYWORDS (map comment_body ?comments) = 100"
    by code_simp
  have s3: "spec_signal_strength LAYOFF_KEYWORDS (map (\<lambda>q. title q @ '' '' @ body q) ?posts) = 0"
    by code_simp
  have s4: "spec_signal_strength LAYOFF_KEYWORDS (map comment_body ?comments) = 0"
    by code_simp
  from T have "merger_signal r =
      spec_signal_strength MERGER_KEYWORDS (map (\<lambda>q. title q @ '' '' @ body q) ?posts) +
      spec_signal_strength MERGER_KEYWORDS (map comment_body ?comments)"
    by (elim conjE)
  then have m: "merger_signal r = 100 + 100" by (simp only: s1 s2)
  from T have "layoff_signal r =
      spec_signal_strength LAYOFF_KEYWORDS (map (\<lambda>q. title q @ '' '' @ body q) ?posts) +
      spec_signal_strength LAYOFF_KEYWORDS (map comment_body ?comments)"
    by (elim conjE)
  then have l: "layoff_signal r = 0" using s3 s4 by simp
  from run a b m l show ?thesis by blast
qed

section \<open>Entity extraction\<close>











lemma map_of_counter_add:
  "map_of (counter_add x c) y =
     (if y = x then Some (case map_of c x of None \<Rightarrow> 1 | Some n \<Rightarrow> n + 1) else map_of c y)"
  by (induction c) auto

lemma Counter_snoc: "Counter (xs @ [x]) = counter_add x (Counter xs)"
  by (simp add: Counter_def)

lemma map_of_Counter:
  "map_of (Counter xs) y = (if y \<in> set xs then Some (count_list xs y) else None)"
proof (induction xs rule: rev_induct)
  case Nil
  show ?case by (simp add: Counter_def)
next
  case (snoc x xs)
  then show ?case by (auto simp: Counter_snoc map_of_counter_add)
qed






section \<open>The entity tally\<close>

lemma first_index_snoc_mem: "a \<in> set xs \<Longrightarrow> first_index (xs @ [x]) a = first_index xs a"
  by (simp add: first_index_def takeWhile_append1)

lemma first_index_less: "a \<in> set xs \<Longrightarrow> first_index xs a < length xs"
  unfolding first_index_def by (induction xs) auto

lemma first_index_snoc_new: "x \<notin> set xs \<Longrightarrow> first_index (xs @ [x]) x = length xs"
proof -
  assume "x \<notin> set xs"
  then have "\<forall>y\<in>set xs. y \<noteq> x" by auto
  then have "takeWhile (\<lambda>y. y \<noteq> x) (xs @ [x]) = xs @ takeWhile (\<lambda>y. y \<noteq> x) [x]"
    by (simp add: takeWhile_append2)
  then show ?thesis by (simp add: first_index_def)
qed

lemma keys_counter_add:
  "map fst (counter_add x c) = (if x \<in> set (map fst c) then map fst c else map fst c @ [x])"
  by (induction x c rule: counter_add.induct) (auto simp: image_iff)

lemma keys_Counter_set: "set (map fst (Counter xs)) = set xs"
proof (induction xs rule: rev_induct)
  case Nil
  show ?case by (simp add: Counter_def)
next
  case (snoc x xs)
  then show ?case by (auto simp: Counter_snoc keys_counter_add)
qed

lemma keys_Counter_first_seen:
  "sorted_wrt (\<lambda>a b. first_index xs a < first_index xs b) (map fst (Counter xs))"
proof (induction xs rule: rev_induct)
  case Nil
  show ?case by (simp add: Counter_def)
next
  case (snoc x xs)
  let ?ks = "map fst (Counter xs)"
  have mem: "set ?ks = set xs" by (rule keys_Counter_set)
  then have mem': "fst ` set (Counter xs) = set xs" by simp
  have old: "sorted_wrt (\<lambda>a b. first_index (xs @ [x]) a < first_index (xs @ [x]) b) ?ks"
  proof -
    have "sorted_wrt (\<lambda>a b. first_index xs a < first_index xs b) ?ks" by (rule snoc.IH)
    then show ?thesis
      by (rule sorted_wrt_mono_rel[rotated]) (auto simp: mem' first_index_snoc_mem)
  qed
  show ?case
  proof (cases "x \<in> set xs")
    case True
    then show ?thesis using old mem by (simp add: Counter_snoc keys_counter_add)
  next
    case False
    have "\<forall>a\<in>set xs. first_index (xs @ [x]) a < first_index (xs @ [x]) x"
      using False by (simp add: first_index_snoc_mem first_index_snoc_new first_index_less)
    then show ?thesis using old mem' False
      by (simp add: Counter_snoc keys_counter_add sorted_wrt_append)
  qed
qed

lemma keys_Counter_distinct: "distinct (map fst (Counter xs))"
proof (induction xs rule: rev_induct)
  case Nil
  show ?case by (simp add: Counter_def)
next
  case (snoc x xs)
  then show ?case by (auto simp: Counter_snoc keys_counter_add)
qed

lemma most_common_length: "length (most_common n c) \<le> n"
  by (simp add: most_common_def)

lemma most_common_descending:
  "sorted_wrt (\<lambda>p q. snd q \<le> snd p) (most_common n c)"
proof -
  have "sorted (map (\<lambda>p. - int (snd p)) (sort_key (\<lambda>p. - int (snd p)) c))"
    by (rule sorted_sort_key)
  then have "sorted_wrt (\<lambda>p q. snd q \<le> snd p) (sort_key (\<lambda>p. - int (snd p)) c)"
    by (simp add: sorted_map sorted_wrt_iff_nth_less)
  then show ?thesis
    unfolding most_common_def by (rule sorted_wrt_take)
qed

lemma most_common_ties:
  assumes "sorted_wrt (\<lambda>p q. R (fst p) (fst q)) c"
  shows "sorted_wrt (\<lambda>p q. R (fst p) (fst q)) (filter (\<lambda>p. snd p = k) (most_common n c))"
proof -
  let ?f = "\<lambda>p :: 'a \<times> nat. - int (snd p)"
  let ?s = "sort_key ?f c"
  have eq: "(\<lambda>p :: 'a \<times> nat. snd p = k) = (\<lambda>p. ?f p = - int k)" by auto
  have "filter (\<lambda>p. snd p = k) ?s = filter (\<lambda>p. snd p = k) c"
    unfolding eq by (rule sort_key_stable)
  moreover have "sorted_wrt (\<lambda>p q. R (fst p) (fst q)) (filter (\<lambda>p. snd p = k) c)"
    using assms by (rule sorted_wrt_filter)
  ultimately have all: "sorted_wrt (\<lambda>p q. R (fst p) (fst q)) (filter (\<lambda>p. snd p = k) ?s)"
    by simp
  have "filter (\<lambda>p. snd p = k) ?s =
      filter (\<lambda>p. snd p = k) (take n ?s) @ filter (\<lambda>p. snd p = k) (drop n ?s)"
    by (metis append_take_drop_id filter_append)
  with all show ?thesis by (simp add: most_common_def sorted_wrt_append)
qed

lemma set_Counter: "set (Counter xs) = (\<lambda>e. (e, count_list xs e)) ` set xs"
proof -
  have "(a, b) \<in> set (Counter xs) \<longleftrightarrow> a \<in> set xs \<and> b = count_list xs a" for a b
  proof -
    have "(a, b) \<in> set (Counter xs) \<longleftrightarrow> map_of (Counter xs) a = Some b"
      using keys_Counter_distinct[of xs] by simp
    then show ?thesis by (auto simp: map_of_Counter)
  qed
  then show ?thesis by auto
qed

lemma sorted_two_keys:
  fixes f :: "'a \<Rightarrow> int"
  assumes "sorted (map f s)" and "\<And>k. sorted_wrt R (filter (\<lambda>p. f p = k) s)"
  shows "sorted_wrt (\<lambda>p q. f p < f q \<or> (f p = f q \<and> R p q)) s"
  using assms
proof (induction s)
  case Nil
  show ?case by simp
next
  case (Cons p s)
  have tail: "sorted_wrt R (filter (\<lambda>p. f p = k) s)" for k
    using Cons.prems(2)[of k] by (cases "f p = k") simp_all
  have "sorted (map f s)" using Cons.prems(1) by simp
  then have rest: "sorted_wrt (\<lambda>p q. f p < f q \<or> (f p = f q \<and> R p q)) s"
    using tail by (rule Cons.IH)
  have "f p < f q \<or> (f p = f q \<and> R p q)" if q: "q \<in> set s" for q
  proof (cases "f p = f q")
    case True
    from Cons.prems(2)[of "f p"] have "\<forall>x\<in>set (filter (\<lambda>x. f x = f p) s). R p x" by simp
    with q True show ?thesis by simp
  next
    case False
    moreover have "f p \<le> f q" using Cons.prems(1) q by simp
    ultimately show ?thesis by simp
  qed
  with rest show ?case by simp
qed

text \<open>
  The whole ranking, of which \<^verbatim>\<open>most_common(10)\<close> is the first ten entries: every
  entity of the list once, with its count, by descending count and, among equal counts,
  in the order of first encounter.
\<close>

lemma ranking_entries:
  "set (sort_key (\<lambda>p. - int (snd p)) (Counter xs)) = (\<lambda>e. (e, count_list xs e)) ` set xs"
  by (simp add: set_Counter)

lemma ranking_distinct:
  "distinct (map fst (sort_key (\<lambda>p. - int (snd p)) (Counter xs)))"
proof -
  have "distinct (Counter xs) \<and> inj_on fst (set (Counter xs))"
    using keys_Counter_distinct[of xs] by (simp add: distinct_map)
  then show ?thesis by (simp add: distinct_map)
qed

lemma ranking_length:
  "length (sort_key (\<lambda>p. - int (snd p)) (Counter xs)) = card (set xs)"
proof -
  have "length (map fst (Counter xs)) = card (set (map fst (Counter xs)))"
    using keys_Counter_distinct[of xs] by (rule distinct_card[symmetric])
  then show ?thesis by (simp add: keys_Counter_set del: set_map)
qed

lemma ranking_sorted:
  "sorted_wrt (\<lambda>p q. snd q < snd p \<or>
       (snd q = snd p \<and> first_index xs (fst p) < first_index xs (fst q)))
     (sort_key (\<lambda>p. - int (snd p)) (Counter xs))"
proof -
  let ?f = "\<lambda>p :: 'a \<times> nat. - int (snd p)"
  let ?R = "\<lambda>p q :: 'a \<times> nat. first_index xs (fst p) < first_index xs (fst q)"
  let ?s = "sort_key ?f (Counter xs)"
  have c: "sorted_wrt ?R (Counter xs)"
    using keys_Counter_first_seen[of xs] by (simp add: sorted_wrt_map)
  have "sorted_wrt ?R (filter (\<lambda>p. ?f p = k) ?s)" for k
  proof -
    have "filter (\<lambda>p. ?f p = k) ?s = filter (\<lambda>p. ?f p = k) (Counter xs)"
      by (rule sort_key_stable)
    moreover have "sorted_wrt ?R (filter (\<lambda>p. ?f p = k) (Counter xs))"
      using c by (rule sorted_wrt_filter)
    ultimately show ?thesis by simp
  qed
  moreover have "sorted (map ?f ?s)" by (rule sorted_sort_key)
  ultimately have "sorted_wrt (\<lambda>p q. ?f p < ?f q \<or> (?f p = ?f q \<and> ?R p q)) ?s"
    by (rule sorted_two_keys[rotated])
  then show ?thesis
    by (rule sorted_wrt_mono_rel[rotated]) auto
qed

lemma left_out_ranked_below:
  assumes e: "e \<in> set xs" and out: "e \<notin> fst ` set (most_common n (Counter xs))"
    and p: "p \<in> set (most_common n (Counter xs))"
  shows "count_list xs e < snd p \<or>
         (count_list xs e = snd p \<and> first_index xs (fst p) < first_index xs e)"
proof -
  let ?s = "sort_key (\<lambda>p. - int (snd p)) (Counter xs)"
  let ?L = "\<lambda>p q :: 'a \<times> nat. snd q < snd p \<or>
       (snd q = snd p \<and> first_index xs (fst p) < first_index xs (fst q))"
  have "sorted_wrt ?L (take n ?s @ drop n ?s)" using ranking_sorted[of xs] by simp
  then have cross: "\<forall>a\<in>set (take n ?s). \<forall>b\<in>set (drop n ?s). ?L a b"
    unfolding sorted_wrt_append by blast
  have "(e, count_list xs e) \<in> set ?s" using e by (simp add: set_Counter)
  then have "(e, count_list xs e) \<in> set (take n ?s) \<union> set (drop n ?s)"
    by (metis append_take_drop_id set_append)
  moreover have "(e, count_list xs e) \<notin> set (take n ?s)"
    using out by (force simp: most_common_def)
  ultimately have "(e, count_list xs e) \<in> set (drop n ?s)" by simp
  moreover have "p \<in> set (take n ?s)" using p by (simp add: most_common_def)
  ultimately have "?L p (e, count_list xs e)" using cross by blast
  then show ?thesis by simp
qed

text \<open>
  Claim C6. For every list of extracted entities, the tally \<^verbatim>\<open>most_common(10)\<close> of
  its counter is the first ten entries of the ranking of the list: the ranking holds
  every entity of the list exactly once, paired with the number of its occurrences, by
  descending frequency, entities of equal frequency in the order in which they were first
  encountered in the list. So the tally has ten entries, or one for every entity when
  there are fewer than ten; it is ordered by descending frequency; the entries of any
  one frequency stand in the order of first encounter; no entity appears twice; and an
  entity that is left out is ranked behind every entry of the tally, having a lower
  frequency, or the same frequency and a later first encounter.
\<close>

theorem top_entities_order:
  "length (most_common 10 (Counter xs)) \<le> 10 \<and>
   length (most_common 10 (Counter xs)) = min 10 (card (set xs)) \<and>
   sorted_wrt (\<lambda>p q. snd q \<le> snd p) (most_common 10 (Counter xs)) \<and>
   sorted_wrt (\<lambda>p q. first_index xs (fst p) < first_index xs (fst q))
     (filter (\<lambda>p. snd p = k) (most_common 10 (Counter xs))) \<and>
   (\<forall>p\<in>set (most_common 10 (Counter xs)). fst p \<in> set xs \<and> snd p = count_list xs (fst p)) \<and>
   distinct (map fst (most_common 10 (Counter xs))) \<and>
   (\<forall>e\<in>set xs. e \<notin> fst ` set (most_common 10 (Counter xs)) \<longrightarrow>
      (\<forall>p\<in>set (most_common 10 (Counter xs)).
         count_list xs e < snd p \<or>
         (count_list xs e = snd p \<and> first_index xs (fst p) < first_index xs e))) \<and>
   (\<exists>s. most_common 10 (Counter xs) = take 10 s \<and>
        set s = (\<lambda>e. (e, count_list xs e)) ` set xs \<and>
        distinct (map fst s) \<and>
        sorted_wrt (\<lambda>p q. snd q < snd p \<or>
          (snd q = snd p \<and> first_index xs (fst p) < first_index xs (fst q))) s)"
proof (intro conjI ballI impI)
  show "length (most_common 10 (Counter xs)) \<le> 10" by (rule most_common_length)
  show "length (most_common 10 (Counter xs)) = min 10 (card (set xs))"
    using ranking_length[of xs] by (simp add: most_common_def min.commute)
  show "sorted_wrt (\<lambda>p q. snd q \<le> snd p) (most_common 10 (Counter xs))"
    by (rule most_common_descending)
  have "sorted_wrt (\<lambda>p q. first_index xs (fst p) < first_index xs (fst q)) (Counter xs)"
    using keys_Counter_first_seen[of xs] by (simp add: sorted_wrt_map)
  then show "sorted_wrt (\<lambda>p q. first_index xs (fst p) < first_index xs (fst q))
     (filter (\<lambda>p. snd p = k) (most_common 10 (Counter xs)))"
    by (rule most_common_ties)
  have "distinct (take 10 (map fst (sort_key (\<lambda>p. - int (snd p)) (Counter xs))))"
    using ranking_distinct[of xs] by (rule distinct_take)
  then show "distinct (map fst (most_common 10 (Counter xs)))"
    by (simp add: most_common_def take_map)
  show "\<exists>s. most_common 10 (Counter xs) = take 10 s \<and>
        set s = (\<lambda>e. (e, count_list xs e)) ` set xs \<and>
        distinct (map fst s) \<and>
        sorted_wrt (\<lambda>p q. snd q < snd p \<or>
          (snd q = snd p \<and> first_index xs (fst p) < first_index xs (fst q))) s"
    using ranking_entries[of xs] ranking_distinct[of xs] ranking_sorted[of xs]
    by (intro exI[of _ "sort_key (\<lambda>p. - int (snd p)) (Counter xs)"] conjI)
       (simp_all add: most_common_def)
next
  fix p assume "p \<in> set (most_common 10 (Counter xs))"
  then have "p \<in> set (Counter xs)"
    by (auto simp: most_common_def dest: in_set_takeD)
  then have "(fst p, snd p) \<in> set (Counter xs)" by simp
  with keys_Counter_distinct[of xs] have "map_of (Counter xs) (fst p) = Some (snd p)"
    by (rule map_of_is_SomeI)
  then show "fst p \<in> set xs" "snd p = count_list xs (fst p)"
    by (auto simp: map_of_Counter split: if_splits)
next
  fix e p
  assume "e \<in> set xs" "e \<notin> fst ` set (most_common 10 (Counter xs))"
    "p \<in> set (most_common 10 (Counter xs))"
  then show "count_list xs e < snd p \<or>
         (count_list xs e = snd p \<and> first_index xs (fst p) < first_index xs e)"
    by (rule left_out_ranked_below)
qed

theorem top_entities_order_witness:
  "most_common 10 (Counter
      [''A Co'', ''B Co'', ''C Co'', ''D Co'', ''E Co'', ''F Co'', ''G Co'', ''H Co'', ''I Co'',
       ''J Co'', ''K Co'', ''L Co'', ''K Co'', ''L Co'', ''L Co'', ''C Co'']) =
     [(''L Co'', 3), (''C Co'', 2), (''K Co'', 2), (''A Co'', 1), (''B Co'', 1), (''D Co'', 1),
      (''E Co'', 1), (''F Co'', 1), (''G Co'', 1), (''H Co'', 1)] \<and>
   ''J Co'' \<in> set [''A Co'', ''B Co'', ''C Co'', ''D Co'', ''E Co'', ''F Co'', ''G Co'', ''H Co'', ''I Co'',
       ''J Co'', ''K Co'', ''L Co'', ''K Co'', ''L Co'', ''L Co'', ''C Co''] \<and>
   ''J Co'' \<notin> fst ` set (most_common 10 (Counter
      [''A Co'', ''B Co'', ''C Co'', ''D Co'', ''E Co'', ''F Co'', ''G Co'', ''H Co'', ''I Co'',
       ''J Co'', ''K Co'', ''L Co'', ''K Co'', ''L Co'', ''L Co'', ''C Co''])) \<and>
   (count_list [''A Co'', ''B Co'', ''C Co'', ''D Co'', ''E Co'', ''F Co'', ''G Co'', ''H Co'', ''I Co'',
       ''J Co'', ''K Co'', ''L Co'', ''K Co'', ''L Co'', ''L Co'', ''C Co''] ''J Co'' < snd (''H Co'', 1 :: nat) \<or>
      (count_list [''A Co'', ''B Co'', ''C Co'', ''D Co'', ''E Co'', ''F Co'', ''G Co'', ''H Co'', ''I Co'',
       ''J Co'', ''K Co'', ''L Co'', ''K Co'', ''L Co'', ''L Co'', ''C Co''] ''J Co'' = snd (''H Co'', 1 :: nat) \<and>
       first_index [''A Co'', ''B Co'', ''C Co'', ''D Co'', ''E Co'', ''F Co'', ''G Co'', ''H Co'', ''I Co'',
       ''J Co'', ''K Co'', ''L Co'', ''K Co'', ''L Co'', ''L Co'', ''C Co''] (fst (''H Co'', 1 :: nat)) <
       first_index [''A Co'', ''B Co'', ''C Co'', ''D Co'', ''E Co'', ''F Co'', ''G Co'', ''H Co'', ''I Co'',
       ''J Co'', ''K Co'', ''L Co'', ''K Co'', ''L Co'', ''L Co'', ''C Co''] ''J Co'')) \<and>
   fst (''K Co'', 2 :: nat) \<in> set [''A Co'', ''B Co'', ''C Co'', ''D Co'', ''E Co'', ''F Co'', ''G Co'', ''H Co'', ''I Co'',
       ''J Co'', ''K Co'', ''L Co'', ''K Co'', ''L Co'', ''L Co'', ''C Co''] \<and>
   snd (''K Co'', 2 :: nat) =
     count_list [''A Co'', ''B Co'', ''C Co'', ''D Co'', ''E Co'', ''F Co'', ''G Co'', ''H Co'', ''I Co'',
       ''J Co'', ''K Co'', ''L Co'', ''K Co'', ''L Co'', ''L Co'', ''C Co''] (fst (''K Co'', 2 :: nat))"
proof -
  let ?xs = "[''A Co'', ''B Co'', ''C Co'', ''D Co'', ''E Co'', ''F Co'', ''G Co'', ''H Co'', ''I Co'',
       ''J Co'', ''K Co'', ''L Co'', ''K Co'', ''L Co'', ''L Co'', ''C Co'']"
  have e: "most_common 10 (Counter ?xs) =
     [(''L Co'', 3), (''C Co'', 2), (''K Co'', 2), (''A Co'', 1), (''B Co'', 1), (''D Co'', 1),
      (''E Co'', 1), (''F Co'', 1), (''G Co'', 1), (''H Co'', 1)]"
    by code_simp
  have m: "''J Co'' \<in> set ?xs" by simp
  have out: "''J Co'' \<notin> fst ` set (most_common 10 (Counter ?xs))"
    unfolding e by simp
  have h: "(''K Co'', 2) \<in> set (most_common 10 (Counter ?xs))"
    unfolding e by simp
  have g: "(''H Co'', 1) \<in> set (most_common 10 (Counter ?xs))"
    unfolding e by simp
  note T = top_entities_order[of ?xs 2]
  note L = T[THEN conjunct2, THEN conjunct2, THEN conjunct2, THEN conjunct2, THEN conjunct2,
      THEN conjunct2, THEN conjunct1, rule_format, OF m out]
  have low: "count_list ?xs ''J Co'' < snd (''H Co'', 1 :: nat) \<or>
      (count_list ?xs ''J Co'' = snd (''H Co'', 1 :: nat) \<and>
       first_index ?xs (fst (''H Co'', 1 :: nat)) < first_index ?xs ''J Co'')"
    by (rule L[OF g])
  from T[THEN conjunct2, THEN conjunct2, THEN conjunct2, THEN conjunct2, THEN conjunct1,
      rule_format, OF h]
  have c: "fst (''K Co'', 2 :: nat) \<in> set ?xs \<and>
      snd (''K Co'', 2 :: nat) = count_list ?xs (fst (''K Co'', 2 :: nat))" .
  from e m out low c show ?thesis by (intro conjI) (elim conjE, assumption)+
qed

end
